theory Spec2Isabelle
  imports Main
begin

section \<open>Data model of the background script\<close>

text \<open>
  The background script keeps four process-wide variables (\<open>workspaceIndex\<close>,
  \<open>windowBindings\<close>, \<open>settings\<close>, \<open>saveTimers\<close>) and talks to two collaborators: the
  storage layer and the browser. Every handler is embedded as a function from the state
  before the handler to the state after it; a handler runs to completion here, and the
  order of its store writes is kept in a write log.
\<close>

text \<open>A persisted tab descriptor, the object literal \<open>{u, t, p}\<close>; the title is optional.\<close>

record descriptor =
  desc_u :: string
  desc_t :: "string option"
  desc_p :: bool

text \<open>A live tab as the browser reports it.\<close>

record tab =
  tab_id :: nat
  tab_url :: string
  tab_title :: string
  tab_pinned :: bool

text \<open>A registry entry, the object built in \<open>createWorkspace\<close>.\<close>

record workspace =
  ws_id :: string
  ws_name :: string
  ws_color :: string
  ws_pinned :: bool
  ws_archived :: bool
  createdAt :: nat
  updatedAt :: nat
  tabCount :: nat

record prefs =
  autoSave :: bool
  includePinnedTabs :: bool
  focusExistingWindow :: bool

text \<open>
  \<open>windowBindings\<close> is a JavaScript object keyed by window id. Its keys are integer-like,
  so \<open>Object.entries\<close> lists them in ascending numeric order: the table is an association
  list kept in ascending key order.
\<close>

type_synonym bindings = "(nat \<times> string) list"

text \<open>JavaScript truthiness of the two kinds of value the handlers test.\<close>

definition truthy_id :: "string \<Rightarrow> bool" where
  "truthy_id s = (s \<noteq> [])"

definition truthy_num :: "nat \<Rightarrow> bool" where
  "truthy_num n = (n \<noteq> 0)"

text \<open>\<open>windowBindings[windowId]\<close>\<close>

definition binding_of :: "bindings \<Rightarrow> nat \<Rightarrow> string option" where
  "binding_of b w = map_of b w"

text \<open>\<open>windowBindings[windowId] = workspaceId\<close>\<close>

fun bind_set :: "nat \<Rightarrow> string \<Rightarrow> bindings \<Rightarrow> bindings" where
  "bind_set w v [] = [(w, v)]"
| "bind_set w v ((k, x) # r) =
     (if w = k then (k, v) # r
      else if w < k then (w, v) # (k, x) # r
      else (k, x) # bind_set w v r)"

text \<open>\<open>delete windowBindings[windowId]\<close>\<close>

definition bind_delete :: "nat \<Rightarrow> bindings \<Rightarrow> bindings" where
  "bind_delete w b = filter (\<lambda>(k, v). k \<noteq> w) b"

text \<open>\<open>Object.entries(windowBindings).find(([, wsId]) => wsId === workspaceId)?.[0]\<close>\<close>

definition find_window :: "bindings \<Rightarrow> string \<Rightarrow> nat option" where
  "find_window b i = map_option fst (List.find (\<lambda>(k, v). v = i) b)"

text \<open>\<open>workspaceIndex.find(ws => ws.id === workspaceId)\<close>\<close>

definition find_workspace :: "workspace list \<Rightarrow> string \<Rightarrow> workspace option" where
  "find_workspace idx i = List.find (\<lambda>ws. ws_id ws = i) idx"

text \<open>
  Assignment to a field of the object that \<open>find\<close> (or \<open>findIndex\<close>) returned: the first
  matching entry of the array changes, every other entry stays.
\<close>

fun update_first :: "('a \<Rightarrow> bool) \<Rightarrow> ('a \<Rightarrow> 'a) \<Rightarrow> 'a list \<Rightarrow> 'a list" where
  "update_first P f [] = []"
| "update_first P f (x # xs) = (if P x then f x # xs else x # update_first P f xs)"

subsection \<open>The storage layer\<close>

text \<open>
  Modelled from the spec: the \<open>Storage\<close> object (shared/storage.js) is not among the
  source files. The spec describes it as an opaque key/value store holding the registry,
  the window-binding table, the settings and, per workspace, a tab-descriptor sequence with
  its version counter and, written separately, a fingerprint. A version that was never
  written reads as 0 (versions start at 1), a snapshot that was never written as the empty
  sequence. Every write is appended to \<open>writes\<close> in the order in which it is issued.
\<close>

datatype store_write =
    SaveWindowBindings bindings
  | SaveWorkspaceIndex "workspace list"
  | SaveWorkspaceTabs string "descriptor list" nat
  | SaveLastHash string string
  | SaveSettings "prefs option"
  | DeleteWorkspaceData string

record storage =
  snapshots :: "string \<Rightarrow> (descriptor list \<times> nat) option"
  hashes :: "string \<Rightarrow> string option"
  stored_index :: "workspace list"
  stored_bindings :: bindings
  stored_settings :: "prefs option"
  writes :: "store_write list"

text \<open>Modelled from the spec: \<open>Storage.getWorkspaceTabs\<close>.\<close>

definition getWorkspaceTabs :: "storage \<Rightarrow> string \<Rightarrow> descriptor list" where
  "getWorkspaceTabs S i = (case snapshots S i of None \<Rightarrow> [] | Some (ds, v) \<Rightarrow> ds)"

text \<open>Modelled from the spec: \<open>Storage.getWorkspaceVersion\<close>.\<close>

definition getWorkspaceVersion :: "storage \<Rightarrow> string \<Rightarrow> nat" where
  "getWorkspaceVersion S i = (case snapshots S i of None \<Rightarrow> 0 | Some (ds, v) \<Rightarrow> v)"

text \<open>Modelled from the spec: \<open>Storage.saveWorkspaceTabs\<close>.\<close>

definition saveWorkspaceTabs :: "string \<Rightarrow> descriptor list \<Rightarrow> nat \<Rightarrow> storage \<Rightarrow> storage" where
  "saveWorkspaceTabs i ds v S =
     S\<lparr>snapshots := (snapshots S)(i \<mapsto> (ds, v)),
       writes := writes S @ [SaveWorkspaceTabs i ds v]\<rparr>"

text \<open>Modelled from the spec: \<open>Storage.getLastHash\<close>.\<close>

definition getLastHash :: "storage \<Rightarrow> string \<Rightarrow> string option" where
  "getLastHash S i = hashes S i"

text \<open>Modelled from the spec: \<open>Storage.saveLastHash\<close>.\<close>

definition saveLastHash :: "string \<Rightarrow> string \<Rightarrow> storage \<Rightarrow> storage" where
  "saveLastHash i h S =
     S\<lparr>hashes := (hashes S)(i \<mapsto> h), writes := writes S @ [SaveLastHash i h]\<rparr>"

text \<open>Modelled from the spec: \<open>Storage.saveWorkspaceIndex\<close>.\<close>

definition saveWorkspaceIndex :: "workspace list \<Rightarrow> storage \<Rightarrow> storage" where
  "saveWorkspaceIndex idx S =
     S\<lparr>stored_index := idx, writes := writes S @ [SaveWorkspaceIndex idx]\<rparr>"

text \<open>Modelled from the spec: \<open>Storage.saveWindowBindings\<close>.\<close>

definition saveWindowBindings :: "bindings \<Rightarrow> storage \<Rightarrow> storage" where
  "saveWindowBindings b S =
     S\<lparr>stored_bindings := b, writes := writes S @ [SaveWindowBindings b]\<rparr>"

text \<open>Modelled from the spec: \<open>Storage.saveSettings\<close>.\<close>

definition saveSettings :: "prefs option \<Rightarrow> storage \<Rightarrow> storage" where
  "saveSettings p S =
     S\<lparr>stored_settings := p, writes := writes S @ [SaveSettings p]\<rparr>"

text \<open>Modelled from the spec: \<open>Storage.deleteWorkspaceData\<close>.\<close>

definition deleteWorkspaceData :: "string \<Rightarrow> storage \<Rightarrow> storage" where
  "deleteWorkspaceData i S =
     S\<lparr>snapshots := (snapshots S)(i := None), hashes := (hashes S)(i := None),
       writes := writes S @ [DeleteWorkspaceData i]\<rparr>"

subsection \<open>The browser\<close>

text \<open>
  The part of the browser the handlers use: the live windows with their tabs in order,
  the last window, tab and timer id the browser handed out (the next one is its
  successor, so every id is positive), and the pending timeouts. A pending timeout holds
  the two variables its callback closed over.
\<close>

record browser =
  windows :: "(nat \<times> tab list) list"
  lastWindowId :: nat
  lastTabId :: nat
  timeouts :: "(nat \<times> string \<times> nat) list"
  lastTimerId :: nat

definition live :: "browser \<Rightarrow> nat \<Rightarrow> bool" where
  "live B w = (w \<in> set (map fst (windows B)))"

text \<open>\<open>browser.tabs.query({windowId})\<close>: the tabs of a window, none for an unknown id.\<close>

definition tabs_query :: "browser \<Rightarrow> nat \<Rightarrow> tab list" where
  "tabs_query B w = (case map_of (windows B) w of None \<Rightarrow> [] | Some ts \<Rightarrow> ts)"

definition all_tabs :: "browser \<Rightarrow> tab list" where
  "all_tabs B = concat (map snd (windows B))"

definition drop_tab :: "nat \<Rightarrow> tab list \<Rightarrow> tab list" where
  "drop_tab n ts = filter (\<lambda>t. tab_id t \<noteq> n) ts"

text \<open>\<open>browser.tabs.remove(id)\<close>; rejects for an id that is no live tab.\<close>

definition tabs_remove :: "nat \<Rightarrow> browser \<Rightarrow> browser option" where
  "tabs_remove n B =
     (case List.find (\<lambda>t. tab_id t = n) (all_tabs B) of
        None \<Rightarrow> None
      | Some t \<Rightarrow> Some (B\<lparr>windows := map (\<lambda>(k, ts). (k, drop_tab n ts)) (windows B)\<rparr>))"

text \<open>
  \<open>browser.tabs.move(id, {windowId, index: -1})\<close>: the tab leaves its window and becomes
  the last tab of the target window; rejects when the tab or the window does not exist.
\<close>

definition tabs_move :: "nat \<Rightarrow> nat \<Rightarrow> browser \<Rightarrow> browser option" where
  "tabs_move n w B =
     (case List.find (\<lambda>t. tab_id t = n) (all_tabs B) of
        None \<Rightarrow> None
      | Some t \<Rightarrow>
          if live B w
          then Some (B\<lparr>windows :=
                 map (\<lambda>(k, ts). (k, if k = w then drop_tab n ts @ [t] else drop_tab n ts))
                   (windows B)\<rparr>)
          else None)"

subsection \<open>Helpers that the script takes from shared/utils.js\<close>

text \<open>
  \<open>shouldExcludeUrl\<close>, \<open>createTabDescriptor\<close>, \<open>quickHash\<close> and
  \<open>getDefaultWorkspaceName\<close> are defined outside the script; the handlers take them as
  parameters, together with \<open>JSON.stringify\<close> on descriptor sequences and the storage
  usage report.
\<close>

record helpers =
  shouldExcludeUrl :: "string \<Rightarrow> bool"
  createTabDescriptor :: "tab \<Rightarrow> descriptor"
  stringify :: "descriptor list \<Rightarrow> string"
  quickHash :: "string \<Rightarrow> string"
  getDefaultWorkspaceName :: "workspace list \<Rightarrow> string"
  getSyncStorageUsage :: "storage \<Rightarrow> nat"

subsection \<open>The state\<close>

text \<open>
  The variable \<open>settings\<close> holds whatever the last \<open>saveSettings\<close> message carried:
  \<open>None\<close> is \<open>undefined\<close>, and reading a property of it throws a \<open>TypeError\<close>.
\<close>

record state =
  workspaceIndex :: "workspace list"
  windowBindings :: bindings
  settings :: "prefs option"
  saveTimers :: "string \<Rightarrow> nat option"
  store :: storage
  host :: browser

section \<open>Startup reap and window close\<close>

text \<open>\<open>cleanupStaleBindings\<close>\<close>

definition cleanupStaleBindings :: "state \<Rightarrow> state" where
  "cleanupStaleBindings st =
     (let validWindowIds = set (map fst (windows (host st)));
          newBindings = filter (\<lambda>(windowId, workspaceId). windowId \<in> validWindowIds)
                          (windowBindings st)
      in st\<lparr>windowBindings := newBindings,
            store := saveWindowBindings newBindings (store st)\<rparr>)"

text \<open>The listener of \<open>browser.windows.onRemoved\<close> in \<open>setupWindowListeners\<close>.\<close>

definition onWindowRemoved :: "nat \<Rightarrow> state \<Rightarrow> state" where
  "onWindowRemoved windowId st =
     (case binding_of (windowBindings st) windowId of
        None \<Rightarrow> st
      | Some i \<Rightarrow>
          if truthy_id i
          then (let b = bind_delete windowId (windowBindings st)
                in st\<lparr>windowBindings := b, store := saveWindowBindings b (store st)\<rparr>)
          else st)"

text \<open>A window closes: the browser drops it, then the listener runs.\<close>

definition close_window :: "nat \<Rightarrow> state \<Rightarrow> state" where
  "close_window w st =
     onWindowRemoved w
       (st\<lparr>host := (host st)\<lparr>windows := filter (\<lambda>(k, ts). k \<noteq> w) (windows (host st))\<rparr>\<rparr>)"

section \<open>Debounce and snapshot capture\<close>

text \<open>
  The argument of \<open>handleTabChange\<close>: a tab (\<open>onCreated\<close>) or an object with a
  \<open>windowId\<close>; \<open>onRemoved\<close> and \<open>onMoved\<close> pass a number, which has neither field.
\<close>

record change_info =
  info_windowId :: "nat option"
  info_id :: "nat option"

text \<open>\<open>info.windowId || info.id\<close>\<close>

definition js_or :: "nat option \<Rightarrow> nat option \<Rightarrow> nat option" where
  "js_or a b = (case a of None \<Rightarrow> b | Some x \<Rightarrow> if truthy_num x then Some x else b)"

definition clearTimeout :: "nat \<Rightarrow> (nat \<times> string \<times> nat) list \<Rightarrow> (nat \<times> string \<times> nat) list" where
  "clearTimeout h ts = filter (\<lambda>(k, c). k \<noteq> h) ts"

text \<open>
  \<open>handleTabChange\<close>. The callback handed to \<open>setTimeout\<close> closes over \<open>workspaceId\<close>
  and \<open>windowId\<close>; the pending timeout records both. With \<open>settings\<close> undefined the
  first line throws, which ends the listener with nothing changed.
\<close>

definition handleTabChange :: "change_info \<Rightarrow> state \<Rightarrow> state" where
  "handleTabChange info st =
     (case settings st of
        None \<Rightarrow> st
      | Some p \<Rightarrow>
          (if \<not> autoSave p then st
           else
             (case js_or (info_windowId info) (info_id info) of
                None \<Rightarrow> st
              | Some windowId \<Rightarrow>
                  (case binding_of (windowBindings st) windowId of
                     None \<Rightarrow> st
                   | Some workspaceId \<Rightarrow>
                       if \<not> truthy_id workspaceId then st
                       else
                         (let B = host st;
                              pending = (case saveTimers st workspaceId of
                                           None \<Rightarrow> timeouts B
                                         | Some h \<Rightarrow>
                                             if truthy_num h then clearTimeout h (timeouts B)
                                             else timeouts B);
                              h = Suc (lastTimerId B)
                          in st\<lparr>saveTimers := (saveTimers st)(workspaceId \<mapsto> h),
                                host := B\<lparr>timeouts := (h, workspaceId, windowId) # pending,
                                          lastTimerId := h\<rparr>\<rparr>)))))"

text \<open>The two filters and the map that turn live tabs into descriptors.\<close>

definition capture_descriptors :: "helpers \<Rightarrow> prefs \<Rightarrow> tab list \<Rightarrow> descriptor list" where
  "capture_descriptors H p tabs =
     map (createTabDescriptor H)
       (filter (\<lambda>tab. includePinnedTabs p \<or> \<not> tab_pinned tab)
          (filter (\<lambda>tab. \<not> shouldExcludeUrl H (tab_url tab)) tabs))"

text \<open>
  The same chain on the variable \<open>settings\<close>. The first filter runs over all tabs; the
  second reads \<open>settings.includePinnedTabs\<close> for the first tab that is left, which throws
  when \<open>settings\<close> is undefined. \<open>None\<close> is that \<open>TypeError\<close>.
\<close>

definition capture :: "helpers \<Rightarrow> prefs option \<Rightarrow> tab list \<Rightarrow> descriptor list option" where
  "capture H s tabs =
     (case s of
        Some p \<Rightarrow> Some (capture_descriptors H p tabs)
      | None \<Rightarrow>
          if filter (\<lambda>tab. \<not> shouldExcludeUrl H (tab_url tab)) tabs = [] then Some []
          else None)"

text \<open>
  \<open>saveWorkspaceSnapshot\<close>; \<open>now\<close> is the reading of \<open>Date.now()\<close>. The \<open>catch\<close>
  swallows the \<open>TypeError\<close> of the filter chain.
\<close>

definition saveWorkspaceSnapshot :: "helpers \<Rightarrow> nat \<Rightarrow> string \<Rightarrow> nat \<Rightarrow> state \<Rightarrow> state" where
  "saveWorkspaceSnapshot H now workspaceId windowId st =
     (case capture H (settings st) (tabs_query (host st) windowId) of
        None \<Rightarrow> st
      | Some tabDescriptors \<Rightarrow>
         (let newHash = quickHash H (stringify H tabDescriptors);
              lastHash = getLastHash (store st) workspaceId
          in if lastHash = Some newHash then st
             else
               (let currentVersion = getWorkspaceVersion (store st) workspaceId;
                    newVersion = currentVersion + 1;
                    S1 = saveLastHash workspaceId newHash
                           (saveWorkspaceTabs workspaceId tabDescriptors newVersion (store st))
                in if find_workspace (workspaceIndex st) workspaceId \<noteq> None
                   then (let idx = update_first (\<lambda>ws. ws_id ws = workspaceId)
                                     (\<lambda>ws. ws\<lparr>updatedAt := now,
                                               tabCount := length tabDescriptors\<rparr>)
                                     (workspaceIndex st)
                         in st\<lparr>workspaceIndex := idx, store := saveWorkspaceIndex idx S1\<rparr>)
                   else st\<lparr>store := S1\<rparr>)))"

text \<open>
  The pending timeout \<open>h\<close> fires: the browser takes it off its list and runs the callback
  with the variables it closed over.
\<close>

definition timer_fired :: "helpers \<Rightarrow> nat \<Rightarrow> nat \<Rightarrow> state \<Rightarrow> state" where
  "timer_fired H now h st =
     (case map_of (timeouts (host st)) h of
        None \<Rightarrow> st
      | Some (workspaceId, windowId) \<Rightarrow>
          saveWorkspaceSnapshot H now workspaceId windowId
            (st\<lparr>host := (host st)\<lparr>timeouts := clearTimeout h (timeouts (host st))\<rparr>\<rparr>))"

section \<open>Moving a tab\<close>

text \<open>Errors that settle a promise as rejected.\<close>

datatype js_error = TypeError | Rejected

text \<open>
  \<open>moveTabToWorkspace\<close>. The key that \<open>find\<close> returns is a non-empty string, so the test
  \<open>if (targetWindowId)\<close> succeeds exactly when a binding was found. A rejected browser call
  ends the function; what was written before stays written.
\<close>

definition moveTabToWorkspace :: "helpers \<Rightarrow> tab \<Rightarrow> string \<Rightarrow> state \<Rightarrow> js_error option \<times> state" where
  "moveTabToWorkspace H tab targetWorkspaceId st =
     (case find_window (windowBindings st) targetWorkspaceId of
        Some targetWindowId \<Rightarrow>
          (case tabs_move (tab_id tab) targetWindowId (host st) of
             None \<Rightarrow> (Some Rejected, st)
           | Some B \<Rightarrow> (None, st\<lparr>host := B\<rparr>))
      | None \<Rightarrow>
          (let tabs = getWorkspaceTabs (store st) targetWorkspaceId @ [createTabDescriptor H tab];
               version = getWorkspaceVersion (store st) targetWorkspaceId;
               st1 = st\<lparr>store := saveWorkspaceTabs targetWorkspaceId tabs (version + 1) (store st)\<rparr>
           in case tabs_remove (tab_id tab) (host st) of
                None \<Rightarrow> (Some Rejected, st1)
              | Some B \<Rightarrow> (None, st1\<lparr>host := B\<rparr>)))"

section \<open>Messages\<close>

text \<open>The answers of the message handler; \<open>Error\<close> is the object \<open>{error: reason}\<close>.\<close>

datatype response =
    Workspaces "workspace list" bindings
  | Created workspace
  | WindowId nat
  | Success
  | Pinned bool
  | Settings "prefs option"
  | Usage nat
  | CurrentWorkspace "workspace option"
  | Error string

text \<open>\<open>getCurrentWorkspace(windowId)\<close>; a missing \<open>windowId\<close> is \<open>None\<close>.\<close>

definition getCurrentWorkspace :: "nat option \<Rightarrow> state \<Rightarrow> response" where
  "getCurrentWorkspace windowId st =
     (case windowId of
        None \<Rightarrow> CurrentWorkspace None
      | Some w \<Rightarrow>
          if \<not> truthy_num w then CurrentWorkspace None
          else (case binding_of (windowBindings st) w of
                  None \<Rightarrow> CurrentWorkspace None
                | Some i \<Rightarrow>
                    if \<not> truthy_id i then CurrentWorkspace None
                    else (case find_workspace (workspaceIndex st) i of
                            None \<Rightarrow> CurrentWorkspace None
                          | Some ws \<Rightarrow> CurrentWorkspace (Some ws))))"

section \<open>Workspace operations\<close>

text \<open>
  The argument of \<open>createWorkspace\<close>, and what one call draws from outside the script:
  the result of \<open>generateId()\<close>, of \<open>getRandomColor()\<close> and of the readings of
  \<open>Date.now()\<close>.
\<close>

record create_data =
  cd_name :: "string option"
  cd_color :: "string option"
  fromCurrentWindow :: bool
  cd_windowId :: "nat option"

record draws =
  generateId :: string
  getRandomColor :: string
  dateNow :: nat
  dateNow2 :: nat

text \<open>\<open>value || fallback\<close> on an optional string.\<close>

definition or_default :: "string option \<Rightarrow> string \<Rightarrow> string" where
  "or_default v d = (case v of None \<Rightarrow> d | Some s \<Rightarrow> if truthy_id s then s else d)"

text \<open>\<open>fromCurrentWindow && windowId\<close>: the window to capture, if the test succeeds.\<close>

definition window_arg :: "create_data \<Rightarrow> nat option" where
  "window_arg d =
     (if fromCurrentWindow d
      then (case cd_windowId d of
              None \<Rightarrow> None
            | Some w \<Rightarrow> if truthy_num w then Some w else None)
      else None)"

text \<open>
  \<open>createWorkspace\<close>. Destructuring an undefined \<open>data\<close> throws a \<open>TypeError\<close>
  before anything else happens, and so does the filter chain when \<open>settings\<close> is
  undefined, before the window is bound.
\<close>

definition createWorkspace ::
    "helpers \<Rightarrow> draws \<Rightarrow> create_data option \<Rightarrow> state \<Rightarrow> (js_error + response) \<times> state" where
  "createWorkspace H D data st =
     (case data of
        None \<Rightarrow> (Inl TypeError, st)
      | Some d \<Rightarrow>
          (let workspace =
                 \<lparr>ws_id = generateId D,
                  ws_name = or_default (cd_name d) (getDefaultWorkspaceName H (workspaceIndex st)),
                  ws_color = or_default (cd_color d) (getRandomColor D),
                  ws_pinned = False, ws_archived = False,
                  createdAt = dateNow D, updatedAt = dateNow2 D, tabCount = 0\<rparr>;
               branch =
                 (case window_arg d of
                    Some windowId \<Rightarrow>
                      (case capture H (settings st) (tabs_query (host st) windowId) of
                         None \<Rightarrow> None
                       | Some tabs \<Rightarrow>
                           (let b = bind_set windowId (ws_id workspace) (windowBindings st)
                            in Some (tabs, workspace\<lparr>tabCount := length tabs\<rparr>, b,
                                 saveWindowBindings b (store st))))
                  | None \<Rightarrow>
                      Some ([\<lparr>desc_u = ''about:newtab'', desc_t = Some ''New Tab'',
                              desc_p = False\<rparr>],
                            workspace\<lparr>tabCount := 1\<rparr>, windowBindings st, store st))
           in case branch of
                None \<Rightarrow> (Inl TypeError, st)
              | Some (tabs, workspace1, b, S1) \<Rightarrow>
                  (let idx = workspaceIndex st @ [workspace1];
                       S2 = saveWorkspaceIndex idx S1;
                       S3 = saveWorkspaceTabs (ws_id workspace1) tabs 1 S2;
                       S4 = saveWorkspaceTabs (ws_id workspace1) tabs 1 S3
                   in (Inr (Created workspace1),
                       st\<lparr>workspaceIndex := idx, windowBindings := b, store := S4\<rparr>))))"

text \<open>
  The browser calls of \<open>openWorkspace\<close>: a new window holding one tab, further tabs
  appended to it, and the pinned flag set on a tab.
\<close>

definition new_tab :: "nat \<Rightarrow> string \<Rightarrow> tab" where
  "new_tab n url = \<lparr>tab_id = n, tab_url = url, tab_title = [], tab_pinned = False\<rparr>"

definition windows_create :: "string \<Rightarrow> browser \<Rightarrow> nat \<times> browser" where
  "windows_create url B =
     (let w = Suc (lastWindowId B); n = Suc (lastTabId B)
      in (w, B\<lparr>windows := windows B @ [(w, [new_tab n url])],
               lastWindowId := w, lastTabId := n\<rparr>))"

definition tabs_create :: "nat \<Rightarrow> string \<Rightarrow> browser \<Rightarrow> browser" where
  "tabs_create w url B =
     (let n = Suc (lastTabId B)
      in B\<lparr>windows := map (\<lambda>(k, ts). (k, if k = w then ts @ [new_tab n url] else ts))
                         (windows B),
           lastTabId := n\<rparr>)"

definition tabs_pin :: "nat \<Rightarrow> browser \<Rightarrow> browser" where
  "tabs_pin n B =
     B\<lparr>windows :=
         map (\<lambda>(k, ts). (k, map (\<lambda>t. if tab_id t = n then t\<lparr>tab_pinned := True\<rparr> else t) ts))
           (windows B)\<rparr>"

text \<open>
  The second half of \<open>openWorkspace\<close>, from "Get tabs for this workspace": materialise a
  new window and bind it.
\<close>

definition open_new_window :: "helpers \<Rightarrow> string \<Rightarrow> state \<Rightarrow> response \<times> state" where
  "open_new_window H workspaceId st =
     (let tabs = getWorkspaceTabs (store st) workspaceId;
          urls = filter (\<lambda>url. url \<noteq> [] \<and> \<not> shouldExcludeUrl H url) (map desc_u tabs);
          urls1 = (if urls = [] then [''about:newtab''] else urls);
          (newWindow, B1) = windows_create (hd urls1) (host st);
          B2 = fold (tabs_create newWindow) (tl urls1) B1;
          windowTabs = tabs_query B2 newWindow;
          B3 = fold (\<lambda>(d, t) B. if desc_p d then tabs_pin (tab_id t) B else B)
                 (zip tabs windowTabs) B2;
          b = bind_set newWindow workspaceId (windowBindings st)
      in (WindowId newWindow,
          st\<lparr>windowBindings := b, store := saveWindowBindings b (store st), host := B3\<rparr>))"

text \<open>A function that returns: its promise resolves to the value.\<close>

definition returned :: "response \<times> state \<Rightarrow> (js_error + response) \<times> state" where
  "returned r = (Inr (fst r), snd r)"

text \<open>
  \<open>openWorkspace\<close>. \<open>browser.windows.update\<close> rejects for a window that no longer
  exists; the \<open>catch\<close> then falls through to opening a new window. The test
  \<open>existingWindowId && settings.focusExistingWindow\<close> stands before the \<open>try\<close>: with a
  binding found and \<open>settings\<close> undefined it throws.
\<close>

definition openWorkspace ::
    "helpers \<Rightarrow> string \<Rightarrow> state \<Rightarrow> (js_error + response) \<times> state" where
  "openWorkspace H workspaceId st =
     (case find_workspace (workspaceIndex st) workspaceId of
        None \<Rightarrow> (Inr (Error ''Workspace not found''), st)
      | Some workspace \<Rightarrow>
          (case find_window (windowBindings st) workspaceId of
             None \<Rightarrow> returned (open_new_window H workspaceId st)
           | Some existingWindowId \<Rightarrow>
               (case settings st of
                  None \<Rightarrow> (Inl TypeError, st)
                | Some p \<Rightarrow>
                    if focusExistingWindow p \<and> live (host st) existingWindowId
                    then (Inr (WindowId existingWindowId), st)
                    else returned (open_new_window H workspaceId st))))"

text \<open>\<open>workspaceIndex.splice(index, 1)\<close> at the index \<open>findIndex\<close> returned.\<close>

fun remove_first :: "('a \<Rightarrow> bool) \<Rightarrow> 'a list \<Rightarrow> 'a list" where
  "remove_first P [] = []"
| "remove_first P (x # xs) = (if P x then xs else x # remove_first P xs)"

text \<open>\<open>deleteWorkspace\<close>\<close>

definition deleteWorkspace :: "string \<Rightarrow> state \<Rightarrow> response \<times> state" where
  "deleteWorkspace workspaceId st =
     (case find_workspace (workspaceIndex st) workspaceId of
        None \<Rightarrow> (Error ''Workspace not found'', st)
      | Some workspace \<Rightarrow>
          (let idx = remove_first (\<lambda>ws. ws_id ws = workspaceId) (workspaceIndex st);
               S1 = deleteWorkspaceData workspaceId
                      (saveWorkspaceIndex idx (saveWorkspaceIndex idx (store st)));
               b = filter (\<lambda>(windowId, wsId). wsId \<noteq> workspaceId) (windowBindings st)
           in (Success,
               st\<lparr>workspaceIndex := idx, windowBindings := b,
                  store := saveWindowBindings b S1\<rparr>)))"

text \<open>\<open>renameWorkspace\<close>; \<open>now\<close> is the reading of \<open>Date.now()\<close>.\<close>

definition renameWorkspace :: "nat \<Rightarrow> string \<Rightarrow> string \<Rightarrow> state \<Rightarrow> response \<times> state" where
  "renameWorkspace now workspaceId name st =
     (case find_workspace (workspaceIndex st) workspaceId of
        None \<Rightarrow> (Error ''Workspace not found'', st)
      | Some workspace \<Rightarrow>
          (let idx = update_first (\<lambda>ws. ws_id ws = workspaceId)
                       (\<lambda>ws. ws\<lparr>ws_name := name, updatedAt := now\<rparr>) (workspaceIndex st)
           in (Success, st\<lparr>workspaceIndex := idx, store := saveWorkspaceIndex idx (store st)\<rparr>)))"

text \<open>\<open>toggleWorkspacePin\<close>\<close>

definition toggleWorkspacePin :: "string \<Rightarrow> state \<Rightarrow> response \<times> state" where
  "toggleWorkspacePin workspaceId st =
     (case find_workspace (workspaceIndex st) workspaceId of
        None \<Rightarrow> (Error ''Workspace not found'', st)
      | Some workspace \<Rightarrow>
          (let idx = update_first (\<lambda>ws. ws_id ws = workspaceId)
                       (\<lambda>ws. ws\<lparr>ws_pinned := \<not> ws_pinned ws\<rparr>) (workspaceIndex st)
           in (Pinned (\<not> ws_pinned workspace),
               st\<lparr>workspaceIndex := idx, store := saveWorkspaceIndex idx (store st)\<rparr>)))"

section \<open>The message handler\<close>

text \<open>
  A message carries its \<open>action\<close> and the fields the actions read. \<open>data\<close>,
  \<open>settings\<close> and \<open>windowId\<close> may be missing, and a missing \<open>workspaceId\<close> equals
  no registry id.
\<close>

record message =
  action :: string
  msg_data :: "create_data option"
  msg_workspaceId :: "string option"
  msg_name :: string
  msg_settings :: "prefs option"
  msg_windowId :: "nat option"

text \<open>A handler called with a \<open>workspaceId\<close> that may be undefined.\<close>

definition with_id ::
    "string option \<Rightarrow> (string \<Rightarrow> state \<Rightarrow> (js_error + response) \<times> state) \<Rightarrow> state \<Rightarrow>
       (js_error + response) \<times> state" where
  "with_id i f st =
     (case i of
        None \<Rightarrow> (Inr (Error ''Workspace not found''), st)
      | Some workspaceId \<Rightarrow> f workspaceId st)"

text \<open>
  \<open>handleMessage\<close>: \<open>Inr\<close> is the value the promise resolves to, \<open>Inl\<close> an exception
  that rejects it.
\<close>

definition handleMessage ::
    "helpers \<Rightarrow> draws \<Rightarrow> message \<Rightarrow> state \<Rightarrow> (js_error + response) \<times> state" where
  "handleMessage H D m st =
     (if action m = ''getWorkspaces''
        then (Inr (Workspaces (workspaceIndex st) (windowBindings st)), st)
      else if action m = ''createWorkspace'' then createWorkspace H D (msg_data m) st
      else if action m = ''openWorkspace''
        then with_id (msg_workspaceId m) (openWorkspace H) st
      else if action m = ''deleteWorkspace''
        then with_id (msg_workspaceId m) (\<lambda>i s. returned (deleteWorkspace i s)) st
      else if action m = ''renameWorkspace''
        then with_id (msg_workspaceId m)
               (\<lambda>i s. returned (renameWorkspace (dateNow D) i (msg_name m) s)) st
      else if action m = ''togglePin''
        then with_id (msg_workspaceId m) (\<lambda>i s. returned (toggleWorkspacePin i s)) st
      else if action m = ''getSettings'' then (Inr (Settings (settings st)), st)
      else if action m = ''saveSettings''
        then (Inr Success,
              st\<lparr>settings := msg_settings m,
                 store := saveSettings (msg_settings m) (store st)\<rparr>)
      else if action m = ''getStorageUsage''
        then (Inr (Usage (getSyncStorageUsage H (store st))), st)
      else if action m = ''getCurrentWorkspace''
        then (Inr (getCurrentWorkspace (msg_windowId m) st), st)
      else (Inr (Error ''Unknown action''), st))"

section \<open>Notions used in the properties\<close>


text \<open>
  The claimed discipline of the snapshot store, read off a write log: every write of a
  workspace's tab sequence carries a version strictly greater than the version persisted
  for that workspace before it. \<open>v\<close> gives the persisted versions at the start of the log.
\<close>

fun strictly_versioned :: "(string \<Rightarrow> nat) \<Rightarrow> store_write list \<Rightarrow> bool" where
  "strictly_versioned v [] = True"
| "strictly_versioned v (SaveWorkspaceTabs i ds n # ws) =
     (v i < n \<and> strictly_versioned (v(i := n)) ws)"
| "strictly_versioned v (DeleteWorkspaceData i # ws) = strictly_versioned (v(i := 0)) ws"
| "strictly_versioned v (SaveWindowBindings b # ws) = strictly_versioned v ws"
| "strictly_versioned v (SaveWorkspaceIndex idx # ws) = strictly_versioned v ws"
| "strictly_versioned v (SaveLastHash i h # ws) = strictly_versioned v ws"
| "strictly_versioned v (SaveSettings p # ws) = strictly_versioned v ws"

text \<open>The writes an operation added to the log of the state it started from.\<close>

definition new_writes :: "state \<Rightarrow> state \<Rightarrow> store_write list" where
  "new_writes st st' = drop (length (writes (store st))) (writes (store st'))"

text \<open>
  The stored fingerprint of a workspace is consistent when it is the fingerprint of the
  stored descriptor sequence.
\<close>

definition fingerprint_consistent :: "helpers \<Rightarrow> storage \<Rightarrow> string \<Rightarrow> bool" where
  "fingerprint_consistent H S i =
     (getLastHash S i = Some (quickHash H (stringify H (getWorkspaceTabs S i))))"

text \<open>
  The target of a move is bound to a live window when some entry of the binding table
  names it and the window of that entry is live. The table names only live windows when
  every key is the id of a live window.
\<close>

definition bound_to_live_window :: "state \<Rightarrow> string \<Rightarrow> bool" where
  "bound_to_live_window st i =
     list_ex (\<lambda>(w, v). v = i \<and> live (host st) w) (windowBindings st)"

definition keys_live :: "state \<Rightarrow> bool" where
  "keys_live st = list_all (\<lambda>(w, v). live (host st) w) (windowBindings st)"

text \<open>The cases of the \<open>switch\<close> in \<open>handleMessage\<close>.\<close>

definition known_actions :: "string list" where
  "known_actions =
     [''getWorkspaces'', ''createWorkspace'', ''openWorkspace'', ''deleteWorkspace'',
      ''renameWorkspace'', ''togglePin'', ''getSettings'', ''saveSettings'',
      ''getStorageUsage'', ''getCurrentWorkspace'']"

text \<open>The four actions that look a workspace id up in the registry.\<close>

definition lookup_actions :: "string list" where
  "lookup_actions = [''openWorkspace'', ''deleteWorkspace'', ''renameWorkspace'', ''togglePin'']"

section \<open>Sequences of operations\<close>

text \<open>
  The operations that change the binding table, each with what it takes from outside:
  creating a workspace, opening one, deleting one, a window closing, and the startup reap.
\<close>

datatype engine_op =
    Create draws create_data
  | Open string
  | Delete string
  | Close nat
  | Reap

fun run_op :: "helpers \<Rightarrow> engine_op \<Rightarrow> state \<Rightarrow> state" where
  "run_op H (Create D d) st = snd (createWorkspace H D (Some d) st)"
| "run_op H (Open i) st = snd (openWorkspace H i st)"
| "run_op H (Delete i) st = snd (deleteWorkspace i st)"
| "run_op H (Close w) st = close_window w st"
| "run_op H Reap st = cleanupStaleBindings st"

definition run_ops :: "helpers \<Rightarrow> engine_op list \<Rightarrow> state \<Rightarrow> state" where
  "run_ops H ops st = fold (run_op H) ops st"

text \<open>
  What the surroundings guarantee for one operation: a generated id is non-empty, and a
  workspace is created from a window that is live.
\<close>

fun op_live :: "engine_op \<Rightarrow> state \<Rightarrow> bool" where
  "op_live (Create D d) st =
     (truthy_id (generateId D) \<and>
      (case window_arg d of None \<Rightarrow> True | Some w \<Rightarrow> live (host st) w))"
| "op_live (Open i) st = True"
| "op_live (Delete i) st = True"
| "op_live (Close w) st = True"
| "op_live Reap st = True"

fun ops_live :: "helpers \<Rightarrow> engine_op list \<Rightarrow> state \<Rightarrow> bool" where
  "ops_live H [] st = True"
| "ops_live H (x # xs) st = (op_live x st \<and> ops_live H xs (run_op H x st))"

text \<open>A generated id is fresh when no window is bound to it yet.\<close>

fun op_fresh :: "engine_op \<Rightarrow> state \<Rightarrow> bool" where
  "op_fresh (Create D d) st = (generateId D \<notin> set (map snd (windowBindings st)))"
| "op_fresh (Open i) st = True"
| "op_fresh (Delete i) st = True"
| "op_fresh (Close w) st = True"
| "op_fresh Reap st = True"

fun ops_fresh :: "helpers \<Rightarrow> engine_op list \<Rightarrow> state \<Rightarrow> bool" where
  "ops_fresh H [] st = True"
| "ops_fresh H (x # xs) st = (op_fresh x st \<and> ops_fresh H xs (run_op H x st))"

text \<open>A sequence that begins with the startup reap, as \<open>init\<close> does.\<close>

fun starts_with_reap :: "engine_op list \<Rightarrow> bool" where
  "starts_with_reap (Reap # xs) = True"
| "starts_with_reap xs = False"

text \<open>
  The binding invariant of the claim: each window has at most one entry, no two live
  windows are bound to the same workspace id, and every key is a live window.
\<close>

definition unique_live :: "state \<Rightarrow> bool" where
  "unique_live st =
     distinct (map snd (filter (\<lambda>(w, i). live (host st) w) (windowBindings st)))"

definition binding_table_ok :: "state \<Rightarrow> bool" where
  "binding_table_ok st =
     (distinct (map fst (windowBindings st)) \<and> unique_live st \<and> keys_live st)"

text \<open>
  What a table and a registry are before any operation: the table is a JavaScript object,
  so its keys come in ascending order, and workspace ids are non-empty strings.
\<close>

definition table_wf :: "state \<Rightarrow> bool" where
  "table_wf st =
     (sorted_wrt (<) (map fst (windowBindings st)) \<and>
      list_all (\<lambda>(w, i). truthy_id i) (windowBindings st) \<and>
      list_all (\<lambda>ws. truthy_id (ws_id ws)) (workspaceIndex st))"

text \<open>
  The invariants the operations maintain: a well-formed table whose keys are live, and
  on top of that no workspace id bound twice.
\<close>

definition table_inv :: "state \<Rightarrow> bool" where
  "table_inv st = (table_wf st \<and> keys_live st)"

definition unique_inv :: "state \<Rightarrow> bool" where
  "unique_inv st = (table_inv st \<and> distinct (map snd (windowBindings st)))"

section \<open>Sample values\<close>

text \<open>
  Concrete helpers, tabs and states on which the theorems below are instantiated. The
  sample exclusion policy rejects the empty URL and every \<open>about:\<close> URL, the sample
  serialisation lists the URLs with their pinned flags, and the sample hash is the
  identity.
\<close>

definition sample_helpers :: helpers where
  "sample_helpers =
     \<lparr>shouldExcludeUrl = (\<lambda>url. url = [] \<or> take 6 url = ''about:''),
      createTabDescriptor =
        (\<lambda>t. \<lparr>desc_u = tab_url t, desc_t = Some (tab_title t), desc_p = tab_pinned t\<rparr>),
      stringify = (\<lambda>ds. concat (map (\<lambda>d. desc_u d @ (if desc_p d then ''!'' else ''|'')) ds)),
      quickHash = (\<lambda>s. s),
      getDefaultWorkspaceName = (\<lambda>idx. ''Workspace''),
      getSyncStorageUsage = (\<lambda>S. 0)\<rparr>"

definition sample_prefs :: prefs where
  "sample_prefs = \<lparr>autoSave = True, includePinnedTabs = True, focusExistingWindow = True\<rparr>"

definition sample_tab :: "nat \<Rightarrow> string \<Rightarrow> tab" where
  "sample_tab n url = \<lparr>tab_id = n, tab_url = url, tab_title = ''t'', tab_pinned = False\<rparr>"

definition sample_workspace :: "string \<Rightarrow> string \<Rightarrow> nat \<Rightarrow> workspace" where
  "sample_workspace i n t =
     \<lparr>ws_id = i, ws_name = n, ws_color = ''blue'', ws_pinned = False, ws_archived = False,
      createdAt = t, updatedAt = t, tabCount = 1\<rparr>"

definition empty_storage :: storage where
  "empty_storage =
     \<lparr>snapshots = (\<lambda>i. None), hashes = (\<lambda>i. None), stored_index = [],
      stored_bindings = [], stored_settings = Some sample_prefs, writes = []\<rparr>"

text \<open>
  One registered workspace \<open>W1\<close>, bound to window 3; window 3 holds three eligible tabs
  and one excluded tab, window 4 holds one tab and is bound to nothing.
\<close>

definition sample_browser :: browser where
  "sample_browser =
     \<lparr>windows = [(3, [sample_tab 11 ''https://a.example'', sample_tab 12 ''about:config'',
                      sample_tab 13 ''https://b.example'', sample_tab 14 ''https://c.example'']),
                 (4, [sample_tab 15 ''https://d.example''])],
      lastWindowId = 4, lastTabId = 15, timeouts = [], lastTimerId = 0\<rparr>"

definition sample_state :: state where
  "sample_state =
     \<lparr>workspaceIndex = [sample_workspace ''W1'' ''Work'' 100],
      windowBindings = [(3, ''W1'')],
      settings = Some sample_prefs,
      saveTimers = (\<lambda>i. None),
      store = empty_storage\<lparr>stored_index := [sample_workspace ''W1'' ''Work'' 100],
                stored_bindings := [(3, ''W1'')],
                snapshots := (\<lambda>i. None)(''W1'' \<mapsto>
                  ([\<lparr>desc_u = ''https://a.example'', desc_t = Some ''t'', desc_p = False\<rparr>], 1))\<rparr>,
      host = sample_browser\<rparr>"

text \<open>A request to create the workspace "Research" from window 3, and what the call draws.\<close>

definition sample_create :: create_data where
  "sample_create =
     \<lparr>cd_name = Some ''Research'', cd_color = None, fromCurrentWindow = True,
      cd_windowId = Some 3\<rparr>"

definition sample_draws :: draws where
  "sample_draws =
     \<lparr>generateId = ''W2'', getRandomColor = ''green'', dateNow = 500, dateNow2 = 500\<rparr>"

text \<open>
  The sample state after a capture of window 3 into \<open>W1\<close>, and after window 3 has then
  been closed, which leaves \<open>W1\<close> without a window.
\<close>

definition captured_state :: state where
  "captured_state = saveWorkspaceSnapshot sample_helpers 200 ''W1'' 3 sample_state"

definition closed_state :: state where
  "closed_state = close_window 3 captured_state"

text \<open>A \<open>createWorkspace\<close> message that carries no \<open>data\<close>.\<close>

definition sample_message :: message where
  "sample_message =
     \<lparr>action = ''createWorkspace'', msg_data = None, msg_workspaceId = None,
      msg_name = [], msg_settings = Some sample_prefs, msg_windowId = None\<rparr>"

text \<open>The sample state with \<open>focusExistingWindow\<close> switched off.\<close>

definition unfocused_state :: state where
  "unfocused_state =
     sample_state\<lparr>settings := Some (sample_prefs\<lparr>focusExistingWindow := False\<rparr>)\<rparr>"

text \<open>A tab of window 3 changes: the argument of \<open>handleTabChange\<close>.\<close>

definition sample_change :: change_info where
  "sample_change = \<lparr>info_windowId = Some 3, info_id = None\<rparr>"

text \<open>
  The sample state after a tab of window 3 has changed (a timer for \<open>W1\<close> is pending),
  and after window 3 has then been turned into the new workspace \<open>W2\<close>, which leaves
  \<open>W1\<close> without a window while the timer is still pending.
\<close>

definition armed_state :: state where
  "armed_state = handleTabChange sample_change sample_state"

definition rebound_state :: state where
  "rebound_state = run_ops sample_helpers [Create sample_draws sample_create] armed_state"

text \<open>
  The sample state as it is loaded at startup when window 9 of the last session is gone:
  the table still has its binding.
\<close>

definition restart_state :: state where
  "restart_state = sample_state\<lparr>windowBindings := [(3, ''W1''), (9, ''W7'')]\<rparr>"

text \<open>
  A request to create a workspace from window 9, which is not live, and the sample state
  after that request.
\<close>

definition stale_create :: create_data where
  "stale_create =
     \<lparr>cd_name = Some ''Research'', cd_color = None, fromCurrentWindow = True,
      cd_windowId = Some 9\<rparr>"

definition stale_state :: state where
  "stale_state = run_ops sample_helpers [Create sample_draws stale_create] sample_state"

text \<open>
  The sample state after a \<open>saveSettings\<close> message without \<open>settings\<close>, and a message
  that asks to open the workspace \<open>W1\<close>.
\<close>

definition unset_state :: state where
  "unset_state =
     snd (handleMessage sample_helpers sample_draws
            (sample_message\<lparr>action := ''saveSettings'', msg_settings := None\<rparr>) sample_state)"

definition open_message :: message where
  "open_message = sample_message\<lparr>action := ''openWorkspace'', msg_workspaceId := Some ''W1''\<rparr>"

section \<open>Properties\<close>

subsection \<open>The current workspace of a window\<close>

lemma gcw_cases:
  "getCurrentWorkspace windowId st =
     (case windowId of None \<Rightarrow> CurrentWorkspace None
      | Some w \<Rightarrow> if w = 0 then CurrentWorkspace None
         else (case binding_of (windowBindings st) w of None \<Rightarrow> CurrentWorkspace None
               | Some i \<Rightarrow> if i = [] then CurrentWorkspace None
                   else CurrentWorkspace (find_workspace (workspaceIndex st) i)))"
  by (simp add: getCurrentWorkspace_def truthy_num_def truthy_id_def split: option.splits)

text \<open>
  C10. \<open>getCurrentWorkspace\<close> never answers with an error object. It answers
  \<open>{workspace: null}\<close> when the window id is missing or falsy, when the binding table has
  no entry for the window, and when the bound workspace id is not in the registry. It
  answers with a workspace record only when the window is bound to an id that the
  registry holds, and then with the first registry entry of that id; it does so whenever
  the window id and the bound id are truthy. The message handler passes the answer on
  unchanged.
\<close>

theorem getCurrentWorkspace_never_errors:
  "(\<exists>x. getCurrentWorkspace windowId st = CurrentWorkspace x) \<and>
   ((windowId = None \<or> windowId = Some 0 \<or>
     (\<exists>w. windowId = Some w \<and>
        (binding_of (windowBindings st) w = None \<or>
         (\<exists>i. binding_of (windowBindings st) w = Some i \<and>
              find_workspace (workspaceIndex st) i = None))))
      \<longrightarrow> getCurrentWorkspace windowId st = CurrentWorkspace None) \<and>
   (\<forall>ws. getCurrentWorkspace windowId st = CurrentWorkspace (Some ws) \<longrightarrow>
      (\<exists>w i. windowId = Some w \<and> binding_of (windowBindings st) w = Some i \<and>
         find_workspace (workspaceIndex st) i = Some ws)) \<and>
   (\<forall>w i ws. windowId = Some w \<and> w \<noteq> 0 \<and> binding_of (windowBindings st) w = Some i \<and>
      i \<noteq> [] \<and> find_workspace (workspaceIndex st) i = Some ws \<longrightarrow>
      getCurrentWorkspace windowId st = CurrentWorkspace (Some ws)) \<and>
   (action m = ''getCurrentWorkspace'' \<longrightarrow>
      handleMessage H D (m\<lparr>msg_windowId := windowId\<rparr>) st =
        (Inr (getCurrentWorkspace windowId st), st))"
proof (intro conjI)
  show "\<exists>x. getCurrentWorkspace windowId st = CurrentWorkspace x"
    by (simp add: gcw_cases split: option.splits)
  show "(windowId = None \<or> windowId = Some 0 \<or>
     (\<exists>w. windowId = Some w \<and>
        (binding_of (windowBindings st) w = None \<or>
         (\<exists>i. binding_of (windowBindings st) w = Some i \<and>
              find_workspace (workspaceIndex st) i = None))))
      \<longrightarrow> getCurrentWorkspace windowId st = CurrentWorkspace None"
    by (auto simp: gcw_cases split: option.splits)
  show "\<forall>ws. getCurrentWorkspace windowId st = CurrentWorkspace (Some ws) \<longrightarrow>
      (\<exists>w i. windowId = Some w \<and> binding_of (windowBindings st) w = Some i \<and>
         find_workspace (workspaceIndex st) i = Some ws)"
    by (auto simp: gcw_cases split: option.splits if_splits)
  show "\<forall>w i ws. windowId = Some w \<and> w \<noteq> 0 \<and> binding_of (windowBindings st) w = Some i \<and>
      i \<noteq> [] \<and> find_workspace (workspaceIndex st) i = Some ws \<longrightarrow>
      getCurrentWorkspace windowId st = CurrentWorkspace (Some ws)"
    by (auto simp: gcw_cases)
  show "action m = ''getCurrentWorkspace'' \<longrightarrow>
      handleMessage H D (m\<lparr>msg_windowId := windowId\<rparr>) st =
        (Inr (getCurrentWorkspace windowId st), st)"
    by (simp add: handleMessage_def)
qed

theorem getCurrentWorkspace_never_errors_witness:
  "getCurrentWorkspace None sample_state = CurrentWorkspace None \<and>
   getCurrentWorkspace (Some 4) sample_state = CurrentWorkspace None \<and>
   getCurrentWorkspace (Some 3) sample_state =
     CurrentWorkspace (Some (sample_workspace ''W1'' ''Work'' 100))"
proof (intro conjI)
  note low = getCurrentWorkspace_never_errors [THEN conjunct2, THEN conjunct1, rule_format]
  note high = getCurrentWorkspace_never_errors
    [THEN conjunct2, THEN conjunct2, THEN conjunct2, THEN conjunct1, rule_format]
  show "getCurrentWorkspace None sample_state = CurrentWorkspace None"
    by (rule low) simp
  have n: "binding_of (windowBindings sample_state) 4 = None"
    by (simp add: sample_state_def binding_of_def)
  show "getCurrentWorkspace (Some 4) sample_state = CurrentWorkspace None"
    by (rule low) (simp add: n)
  have b: "binding_of (windowBindings sample_state) 3 = Some ''W1''"
    by (simp add: sample_state_def binding_of_def)
  have f: "find_workspace (workspaceIndex sample_state) ''W1'' =
             Some (sample_workspace ''W1'' ''Work'' 100)"
    by (simp add: sample_state_def find_workspace_def sample_workspace_def)
  show "getCurrentWorkspace (Some 3) sample_state =
          CurrentWorkspace (Some (sample_workspace ''W1'' ''Work'' 100))"
    by (rule high [where w = 3 and i = "''W1''"]) (simp add: b f)
qed

subsection \<open>Snapshot capture\<close>

lemma snapshot_throw:
  "capture H (settings st) (tabs_query (host st) windowId) = None
   \<Longrightarrow> saveWorkspaceSnapshot H now workspaceId windowId st = st"
  by (simp add: saveWorkspaceSnapshot_def)

lemma snapshot_skip:
  "capture H (settings st) (tabs_query (host st) windowId) = Some ds \<Longrightarrow>
   getLastHash (store st) workspaceId = Some (quickHash H (stringify H ds))
   \<Longrightarrow> saveWorkspaceSnapshot H now workspaceId windowId st = st"
  by (simp add: saveWorkspaceSnapshot_def Let_def)

lemma snapshot_frame:
  "host (saveWorkspaceSnapshot H now workspaceId windowId st) = host st"
  "settings (saveWorkspaceSnapshot H now workspaceId windowId st) = settings st"
  "windowBindings (saveWorkspaceSnapshot H now workspaceId windowId st) = windowBindings st"
  "saveTimers (saveWorkspaceSnapshot H now workspaceId windowId st) = saveTimers st"
  by (simp_all add: saveWorkspaceSnapshot_def Let_def split: option.splits)

lemma snapshot_hash:
  "capture H (settings st) (tabs_query (host st) windowId) = Some ds \<Longrightarrow>
   getLastHash (store (saveWorkspaceSnapshot H now workspaceId windowId st)) workspaceId =
     Some (quickHash H (stringify H ds))"
  by (simp add: saveWorkspaceSnapshot_def Let_def getLastHash_def saveLastHash_def
        saveWorkspaceIndex_def)

lemma snapshot_version:
  "getWorkspaceVersion (store (saveWorkspaceSnapshot H now workspaceId windowId st)) workspaceId =
     (case capture H (settings st) (tabs_query (host st) windowId) of
        None \<Rightarrow> getWorkspaceVersion (store st) workspaceId
      | Some ds \<Rightarrow>
          if getLastHash (store st) workspaceId = Some (quickHash H (stringify H ds))
          then getWorkspaceVersion (store st) workspaceId
          else getWorkspaceVersion (store st) workspaceId + 1)"
  by (simp add: saveWorkspaceSnapshot_def Let_def getWorkspaceVersion_def saveLastHash_def
        saveWorkspaceIndex_def saveWorkspaceTabs_def split: option.splits)

lemma snapshot_twice:
  "saveWorkspaceSnapshot H now2 workspaceId windowId
     (saveWorkspaceSnapshot H now workspaceId windowId st) =
   saveWorkspaceSnapshot H now workspaceId windowId st"
proof (cases "capture H (settings st) (tabs_query (host st) windowId)")
  case None
  then show ?thesis by (simp add: snapshot_throw)
next
  case (Some ds)
  show ?thesis
    by (rule snapshot_skip [where ds = ds]) (simp_all add: snapshot_hash snapshot_frame Some)
qed

lemma sample_descs:
  "capture sample_helpers (settings sample_state) (tabs_query (host sample_state) 3) =
   Some [\<lparr>desc_u = ''https://a.example'', desc_t = Some ''t'', desc_p = False\<rparr>,
         \<lparr>desc_u = ''https://b.example'', desc_t = Some ''t'', desc_p = False\<rparr>,
         \<lparr>desc_u = ''https://c.example'', desc_t = Some ''t'', desc_p = False\<rparr>]"
  by (simp add: capture_def capture_descriptors_def sample_helpers_def sample_state_def
        sample_browser_def tabs_query_def sample_tab_def sample_prefs_def)

text \<open>
  C3. Snapshot capture is idempotent with respect to the fingerprint. When the fingerprint
  of the freshly captured descriptor sequence equals the fingerprint stored for the
  workspace, the capture changes nothing: the state after it is the state before it, so
  the snapshot, the fingerprint, the version, the registry and the write log are all
  unchanged. A second capture of the same window right after a first one is such a
  no-op, and the two calls together raise the version by one when the first call found
  a different fingerprint and not at all otherwise (nor when the filter chain throws
  because \<open>settings\<close> is undefined, which the capture swallows).
\<close>

theorem capture_idempotent:
  "(capture H (settings st) (tabs_query (host st) windowId) = Some ds \<and>
    getLastHash (store st) workspaceId = Some (quickHash H (stringify H ds))
    \<longrightarrow> saveWorkspaceSnapshot H now workspaceId windowId st = st) \<and>
   saveWorkspaceSnapshot H now2 workspaceId windowId
     (saveWorkspaceSnapshot H now workspaceId windowId st) =
   saveWorkspaceSnapshot H now workspaceId windowId st \<and>
   getWorkspaceVersion
     (store (saveWorkspaceSnapshot H now2 workspaceId windowId
        (saveWorkspaceSnapshot H now workspaceId windowId st))) workspaceId =
     (case capture H (settings st) (tabs_query (host st) windowId) of
        None \<Rightarrow> getWorkspaceVersion (store st) workspaceId
      | Some ds \<Rightarrow>
          if getLastHash (store st) workspaceId = Some (quickHash H (stringify H ds))
          then getWorkspaceVersion (store st) workspaceId
          else getWorkspaceVersion (store st) workspaceId + 1)"
proof (intro conjI impI)
  assume "capture H (settings st) (tabs_query (host st) windowId) = Some ds \<and>
    getLastHash (store st) workspaceId = Some (quickHash H (stringify H ds))"
  then show "saveWorkspaceSnapshot H now workspaceId windowId st = st"
    by (simp add: snapshot_skip)
next
  show "saveWorkspaceSnapshot H now2 workspaceId windowId
     (saveWorkspaceSnapshot H now workspaceId windowId st) =
   saveWorkspaceSnapshot H now workspaceId windowId st"
    by (rule snapshot_twice)
next
  show "getWorkspaceVersion
     (store (saveWorkspaceSnapshot H now2 workspaceId windowId
        (saveWorkspaceSnapshot H now workspaceId windowId st))) workspaceId =
     (case capture H (settings st) (tabs_query (host st) windowId) of
        None \<Rightarrow> getWorkspaceVersion (store st) workspaceId
      | Some ds \<Rightarrow>
          if getLastHash (store st) workspaceId = Some (quickHash H (stringify H ds))
          then getWorkspaceVersion (store st) workspaceId
          else getWorkspaceVersion (store st) workspaceId + 1)"
    by (simp only: snapshot_twice snapshot_version)
qed

theorem capture_idempotent_witness:
  "capture sample_helpers
     (settings (saveWorkspaceSnapshot sample_helpers 200 ''W1'' 3 sample_state))
     (tabs_query (host (saveWorkspaceSnapshot sample_helpers 200 ''W1'' 3 sample_state)) 3) =
     Some [\<lparr>desc_u = ''https://a.example'', desc_t = Some ''t'', desc_p = False\<rparr>,
           \<lparr>desc_u = ''https://b.example'', desc_t = Some ''t'', desc_p = False\<rparr>,
           \<lparr>desc_u = ''https://c.example'', desc_t = Some ''t'', desc_p = False\<rparr>] \<and>
   getLastHash (store (saveWorkspaceSnapshot sample_helpers 200 ''W1'' 3 sample_state)) ''W1'' =
     Some (quickHash sample_helpers (stringify sample_helpers
       [\<lparr>desc_u = ''https://a.example'', desc_t = Some ''t'', desc_p = False\<rparr>,
        \<lparr>desc_u = ''https://b.example'', desc_t = Some ''t'', desc_p = False\<rparr>,
        \<lparr>desc_u = ''https://c.example'', desc_t = Some ''t'', desc_p = False\<rparr>])) \<and>
   saveWorkspaceSnapshot sample_helpers 300 ''W1'' 3
     (saveWorkspaceSnapshot sample_helpers 200 ''W1'' 3 sample_state) =
   saveWorkspaceSnapshot sample_helpers 200 ''W1'' 3 sample_state \<and>
   getWorkspaceVersion (store sample_state) ''W1'' = 1 \<and>
   getWorkspaceVersion
     (store (saveWorkspaceSnapshot sample_helpers 300 ''W1'' 3
        (saveWorkspaceSnapshot sample_helpers 200 ''W1'' 3 sample_state))) ''W1'' = 2"
proof -
  let ?s1 = "saveWorkspaceSnapshot sample_helpers 200 ''W1'' 3 sample_state"
  let ?ds = "[\<lparr>desc_u = ''https://a.example'', desc_t = Some ''t'', desc_p = False\<rparr>,
              \<lparr>desc_u = ''https://b.example'', desc_t = Some ''t'', desc_p = False\<rparr>,
              \<lparr>desc_u = ''https://c.example'', desc_t = Some ''t'', desc_p = False\<rparr>]"
  have c: "capture sample_helpers (settings ?s1) (tabs_query (host ?s1) 3) = Some ?ds"
    by (simp only: snapshot_frame sample_descs)
  have h: "getLastHash (store ?s1) ''W1'' =
     Some (quickHash sample_helpers (stringify sample_helpers ?ds))"
    by (rule snapshot_hash [OF sample_descs])
  have a: "saveWorkspaceSnapshot sample_helpers 300 ''W1'' 3 ?s1 = ?s1"
    using capture_idempotent [where st = ?s1 and workspaceId = "''W1''" and H = sample_helpers
        and windowId = 3 and now = 300 and ds = ?ds, THEN conjunct1] c h by (elim impE) simp_all
  have n: "getLastHash (store sample_state) ''W1'' = None"
    by (simp add: getLastHash_def sample_state_def empty_storage_def)
  have v: "getWorkspaceVersion (store sample_state) ''W1'' = 1"
    by (simp add: getWorkspaceVersion_def sample_state_def empty_storage_def)
  have b: "getWorkspaceVersion (store (saveWorkspaceSnapshot sample_helpers 300 ''W1'' 3 ?s1)) ''W1'' = 2"
    using capture_idempotent [where st = sample_state and workspaceId = "''W1''"
        and H = sample_helpers and windowId = 3 and now = 200 and ?now2.0 = 300,
        THEN conjunct2, THEN conjunct2]
    by (simp add: n v sample_descs)
  from c h a v b show ?thesis by (intro conjI)
qed

subsection \<open>Creating a workspace from a window\<close>



lemma capture_Some: "capture H (Some p) ts = Some (capture_descriptors H p ts)"
  by (simp add: capture_def)

lemma createWorkspace_window_state:
  assumes "window_arg d = Some w" and "settings st = Some p"
  shows "snd (createWorkspace H D (Some d) st) =
    st\<lparr>workspaceIndex := workspaceIndex st @
          [\<lparr>ws_id = generateId D,
            ws_name = or_default (cd_name d) (getDefaultWorkspaceName H (workspaceIndex st)),
            ws_color = or_default (cd_color d) (getRandomColor D),
            ws_pinned = False, ws_archived = False,
            createdAt = dateNow D, updatedAt = dateNow2 D,
            tabCount = length (capture_descriptors H p (tabs_query (host st) w))\<rparr>],
       windowBindings := bind_set w (generateId D) (windowBindings st),
       store :=
         saveWorkspaceTabs (generateId D)
           (capture_descriptors H p (tabs_query (host st) w)) 1
           (saveWorkspaceTabs (generateId D)
             (capture_descriptors H p (tabs_query (host st) w)) 1
             (saveWorkspaceIndex (workspaceIndex st @
          [\<lparr>ws_id = generateId D,
            ws_name = or_default (cd_name d) (getDefaultWorkspaceName H (workspaceIndex st)),
            ws_color = or_default (cd_color d) (getRandomColor D),
            ws_pinned = False, ws_archived = False,
            createdAt = dateNow D, updatedAt = dateNow2 D,
            tabCount = length (capture_descriptors H p (tabs_query (host st) w))\<rparr>])
               (saveWindowBindings (bind_set w (generateId D) (windowBindings st)) (store st))))\<rparr>"
  using assms by (simp add: createWorkspace_def Let_def capture_Some)




subsection \<open>Versions of the persisted writes\<close>

lemma createWorkspace_blank_state:
  assumes "window_arg d = None"
  shows "snd (createWorkspace H D (Some d) st) =
    st\<lparr>workspaceIndex := workspaceIndex st @
          [\<lparr>ws_id = generateId D,
            ws_name = or_default (cd_name d) (getDefaultWorkspaceName H (workspaceIndex st)),
            ws_color = or_default (cd_color d) (getRandomColor D),
            ws_pinned = False, ws_archived = False,
            createdAt = dateNow D, updatedAt = dateNow2 D, tabCount = 1\<rparr>],
       store :=
         saveWorkspaceTabs (generateId D)
           [\<lparr>desc_u = ''about:newtab'', desc_t = Some ''New Tab'', desc_p = False\<rparr>] 1
           (saveWorkspaceTabs (generateId D)
             [\<lparr>desc_u = ''about:newtab'', desc_t = Some ''New Tab'', desc_p = False\<rparr>] 1
             (saveWorkspaceIndex (workspaceIndex st @
          [\<lparr>ws_id = generateId D,
            ws_name = or_default (cd_name d) (getDefaultWorkspaceName H (workspaceIndex st)),
            ws_color = or_default (cd_color d) (getRandomColor D),
            ws_pinned = False, ws_archived = False,
            createdAt = dateNow D, updatedAt = dateNow2 D, tabCount = 1\<rparr>])
               (store st)))\<rparr>"
  using assms by (simp add: createWorkspace_def Let_def)

lemma createWorkspace_throws:
  assumes "window_arg d = Some w"
      and "capture H (settings st) (tabs_query (host st) w) = None"
  shows "createWorkspace H D (Some d) st = (Inl TypeError, st)"
  using assms by (simp add: createWorkspace_def Let_def)

lemma createWorkspace_captured_writes:
  assumes "window_arg d = Some w"
      and "capture H (settings st) (tabs_query (host st) w) = Some ds"
  shows "new_writes st (snd (createWorkspace H D (Some d) st)) =
      [SaveWindowBindings (bind_set w (generateId D) (windowBindings st)),
       SaveWorkspaceIndex (workspaceIndex (snd (createWorkspace H D (Some d) st)))] @
      [SaveWorkspaceTabs (generateId D) ds 1, SaveWorkspaceTabs (generateId D) ds 1]"
  using assms
  by (simp add: createWorkspace_def Let_def new_writes_def saveWorkspaceTabs_def
        saveWorkspaceIndex_def saveWindowBindings_def)

lemma createWorkspace_new_writes:
  "(\<exists>w. window_arg d = Some w \<and> capture H (settings st) (tabs_query (host st) w) = None) \<or>
   (\<exists>pre ds. new_writes st (snd (createWorkspace H D (Some d) st)) =
     pre @ [SaveWorkspaceTabs (generateId D) ds 1, SaveWorkspaceTabs (generateId D) ds 1])"
proof (cases "window_arg d")
  case None
  show ?thesis
    by (simp add: createWorkspace_blank_state [OF None] new_writes_def saveWorkspaceTabs_def
          saveWorkspaceIndex_def)
next
  case (Some w)
  show ?thesis
  proof (cases "capture H (settings st) (tabs_query (host st) w)")
    case None
    with Some show ?thesis by simp
  next
    case ds: (Some ds)
    from createWorkspace_captured_writes [OF Some ds, of D] show ?thesis by blast
  qed
qed

lemma strictly_versioned_append:
  "strictly_versioned v (xs @ [SaveWorkspaceTabs i ds n, SaveWorkspaceTabs i ds n]) = False"
proof (induction xs arbitrary: v)
  case Nil
  show ?case by simp
next
  case (Cons x xs)
  then show ?case by (cases x) simp_all
qed

lemma snapshot_strictly_versioned:
  "strictly_versioned (getWorkspaceVersion (store st))
     (new_writes st (saveWorkspaceSnapshot H now workspaceId windowId st))"
  by (simp add: saveWorkspaceSnapshot_def Let_def new_writes_def saveWorkspaceTabs_def
        saveLastHash_def saveWorkspaceIndex_def split: option.splits)

lemma move_strictly_versioned:
  "strictly_versioned (getWorkspaceVersion (store st))
     (new_writes st (snd (moveTabToWorkspace H tab target st)))"
  by (simp add: moveTabToWorkspace_def Let_def new_writes_def saveWorkspaceTabs_def
        split: option.splits)

text \<open>
  C4. The claim is that every write of a workspace's tab sequence carries a version
  strictly greater than the version persisted before it. Capture and tab move keep to
  that (the two lemmas above). \<open>createWorkspace\<close> does not: whatever the request,
  unless the filter chain throws before anything is written (created from a window,
  \<open>settings\<close> undefined), it issues \<open>saveWorkspaceTabs(id, tabs, 1)\<close> twice in a row,
  and the second write carries version 1 over the persisted version 1. The sample request,
  a workspace created from window 3, is such a call.
\<close>

theorem createWorkspace_repeats_version:
  "((\<exists>w. window_arg d = Some w \<and> capture H (settings st) (tabs_query (host st) w) = None) \<or>
    \<not> strictly_versioned (getWorkspaceVersion (store st))
        (new_writes st (snd (createWorkspace H D (Some d) st)))) \<and>
   \<not> strictly_versioned (getWorkspaceVersion (store sample_state))
       (new_writes sample_state
          (snd (createWorkspace sample_helpers sample_draws (Some sample_create) sample_state)))"
proof
  show "(\<exists>w. window_arg d = Some w \<and> capture H (settings st) (tabs_query (host st) w) = None) \<or>
    \<not> strictly_versioned (getWorkspaceVersion (store st))
        (new_writes st (snd (createWorkspace H D (Some d) st)))"
  proof (cases "\<exists>w. window_arg d = Some w \<and>
      capture H (settings st) (tabs_query (host st) w) = None")
    case True
    then show ?thesis by (rule disjI1)
  next
    case False
    with createWorkspace_new_writes [of d H st D] obtain pre ds where
      "new_writes st (snd (createWorkspace H D (Some d) st)) =
         pre @ [SaveWorkspaceTabs (generateId D) ds 1, SaveWorkspaceTabs (generateId D) ds 1]"
      by blast
    then show ?thesis by (simp only: strictly_versioned_append simp_thms)
  qed
next
  have a: "window_arg sample_create = Some 3"
    by (simp add: window_arg_def sample_create_def truthy_num_def)
  show "\<not> strictly_versioned (getWorkspaceVersion (store sample_state))
       (new_writes sample_state
          (snd (createWorkspace sample_helpers sample_draws (Some sample_create) sample_state)))"
    by (simp only: createWorkspace_captured_writes [OF a sample_descs]
          strictly_versioned_append append_assoc simp_thms)
qed

subsection \<open>The fingerprint after a tab move\<close>

lemma captured_store:
  "hashes (store captured_state) ''W1'' =
     Some ''https://a.example|https://b.example|https://c.example|''"
  "snapshots (store captured_state) ''W1'' =
     Some ([\<lparr>desc_u = ''https://a.example'', desc_t = Some ''t'', desc_p = False\<rparr>,
            \<lparr>desc_u = ''https://b.example'', desc_t = Some ''t'', desc_p = False\<rparr>,
            \<lparr>desc_u = ''https://c.example'', desc_t = Some ''t'', desc_p = False\<rparr>], 2)"
  unfolding captured_state_def saveWorkspaceSnapshot_def Let_def sample_descs option.case
  by (simp_all add: sample_helpers_def sample_state_def empty_storage_def getLastHash_def
        getWorkspaceVersion_def saveLastHash_def saveWorkspaceTabs_def saveWorkspaceIndex_def
        find_workspace_def)

lemma captured_frame:
  "windowBindings captured_state = [(3, ''W1'')]"
  "host captured_state = sample_browser"
  "settings captured_state = Some sample_prefs"
  by (simp_all add: captured_state_def snapshot_frame sample_state_def)

lemma closed_store:
  "hashes (store closed_state) ''W1'' =
     Some ''https://a.example|https://b.example|https://c.example|''"
  "snapshots (store closed_state) ''W1'' =
     Some ([\<lparr>desc_u = ''https://a.example'', desc_t = Some ''t'', desc_p = False\<rparr>,
            \<lparr>desc_u = ''https://b.example'', desc_t = Some ''t'', desc_p = False\<rparr>,
            \<lparr>desc_u = ''https://c.example'', desc_t = Some ''t'', desc_p = False\<rparr>], 2)"
  by (simp_all add: closed_state_def close_window_def onWindowRemoved_def binding_of_def
        captured_frame truthy_id_def Let_def saveWindowBindings_def captured_store)

lemma closed_frame:
  "windowBindings closed_state = []"
  "windows (host closed_state) = [(4, [sample_tab 15 ''https://d.example''])]"
  "settings closed_state = Some sample_prefs"
  by (simp_all add: closed_state_def close_window_def onWindowRemoved_def binding_of_def
        captured_frame truthy_id_def Let_def bind_delete_def sample_browser_def)

lemma move_unbound:
  assumes "find_window (windowBindings st) target = None"
      and "tabs_remove (tab_id tab) (host st) = Some B"
  shows "moveTabToWorkspace H tab target st =
    (None, st\<lparr>store := saveWorkspaceTabs target
                 (getWorkspaceTabs (store st) target @ [createTabDescriptor H tab])
                 (getWorkspaceVersion (store st) target + 1) (store st),
              host := B\<rparr>)"
  using assms by (simp add: moveTabToWorkspace_def Let_def)

lemma move_bound:
  assumes "find_window (windowBindings st) target = Some w"
      and "tabs_move (tab_id tab) w (host st) = Some B"
  shows "moveTabToWorkspace H tab target st = (None, st\<lparr>host := B\<rparr>)"
  using assms by (simp add: moveTabToWorkspace_def)

text \<open>
  C5. The claim is that after every write of a workspace's descriptors the stored
  fingerprint is the fingerprint of the sequence just written. The capture path keeps to
  that (it writes the fingerprint right after the descriptors, lemma \<open>snapshot_hash\<close>).
  The direct append of \<open>moveTabToWorkspace\<close> does not: it writes the longer sequence
  and leaves the fingerprint alone. In the sample, \<open>W1\<close> has no window and a consistent
  fingerprint; moving the tab of window 4 into it stores four descriptors under the
  fingerprint of the first three.
\<close>

theorem move_leaves_stale_fingerprint:
  "find_window (windowBindings closed_state) ''W1'' = None \<and>
   fingerprint_consistent sample_helpers (store closed_state) ''W1'' \<and>
   fst (moveTabToWorkspace sample_helpers (sample_tab 15 ''https://d.example'') ''W1''
          closed_state) = None \<and>
   getWorkspaceTabs (store (snd (moveTabToWorkspace sample_helpers
       (sample_tab 15 ''https://d.example'') ''W1'' closed_state))) ''W1'' =
     [\<lparr>desc_u = ''https://a.example'', desc_t = Some ''t'', desc_p = False\<rparr>,
      \<lparr>desc_u = ''https://b.example'', desc_t = Some ''t'', desc_p = False\<rparr>,
      \<lparr>desc_u = ''https://c.example'', desc_t = Some ''t'', desc_p = False\<rparr>,
      \<lparr>desc_u = ''https://d.example'', desc_t = Some ''t'', desc_p = False\<rparr>] \<and>
   getLastHash (store (snd (moveTabToWorkspace sample_helpers
       (sample_tab 15 ''https://d.example'') ''W1'' closed_state))) ''W1'' =
     Some ''https://a.example|https://b.example|https://c.example|'' \<and>
   \<not> fingerprint_consistent sample_helpers
       (store (snd (moveTabToWorkspace sample_helpers
          (sample_tab 15 ''https://d.example'') ''W1'' closed_state))) ''W1''"
proof -
  let ?tab = "sample_tab 15 ''https://d.example''"
  have u: "find_window (windowBindings closed_state) ''W1'' = None"
    by (simp add: closed_frame find_window_def)
  have c: "fingerprint_consistent sample_helpers (store closed_state) ''W1''"
    by (simp add: fingerprint_consistent_def getLastHash_def getWorkspaceTabs_def closed_store
          sample_helpers_def)
  have r: "tabs_remove (tab_id ?tab) (host closed_state) =
             Some ((host closed_state)\<lparr>windows := [(4, [])]\<rparr>)"
    by (simp add: tabs_remove_def all_tabs_def closed_frame sample_tab_def drop_tab_def)
  note m = move_unbound [OF u r, of sample_helpers]
  have t: "getWorkspaceTabs (store (snd (moveTabToWorkspace sample_helpers ?tab ''W1''
              closed_state))) ''W1'' =
     [\<lparr>desc_u = ''https://a.example'', desc_t = Some ''t'', desc_p = False\<rparr>,
      \<lparr>desc_u = ''https://b.example'', desc_t = Some ''t'', desc_p = False\<rparr>,
      \<lparr>desc_u = ''https://c.example'', desc_t = Some ''t'', desc_p = False\<rparr>,
      \<lparr>desc_u = ''https://d.example'', desc_t = Some ''t'', desc_p = False\<rparr>]"
    unfolding m
    by (simp add: getWorkspaceTabs_def saveWorkspaceTabs_def closed_store sample_helpers_def
          sample_tab_def)
  have h: "getLastHash (store (snd (moveTabToWorkspace sample_helpers ?tab ''W1''
              closed_state))) ''W1'' =
     Some ''https://a.example|https://b.example|https://c.example|''"
    unfolding m
    by (simp add: getLastHash_def saveWorkspaceTabs_def closed_store)
  have n: "\<not> fingerprint_consistent sample_helpers
       (store (snd (moveTabToWorkspace sample_helpers ?tab ''W1'' closed_state))) ''W1''"
    unfolding fingerprint_consistent_def t h by (simp add: sample_helpers_def)
  have f: "fst (moveTabToWorkspace sample_helpers ?tab ''W1'' closed_state) = None"
    unfolding m by simp
  from u c f t h n show ?thesis by blast
qed

subsection \<open>Moving a tab to another workspace\<close>

lemma find_window_Some:
  "find_window b i = Some w \<Longrightarrow> (w, i) \<in> set b"
  by (auto simp: find_window_def find_Some_iff in_set_conv_nth)

lemma find_window_None:
  "find_window b i = None \<longleftrightarrow> (\<forall>w. (w, i) \<notin> set b)"
  by (auto simp: find_window_def find_None_iff)

lemma keys_live_find:
  "keys_live st \<Longrightarrow> find_window (windowBindings st) i = Some w \<Longrightarrow> live (host st) w"
  by (auto simp: keys_live_def list_all_iff dest!: find_window_Some)

lemma bound_live_find:
  "bound_to_live_window st i \<Longrightarrow> \<exists>w. find_window (windowBindings st) i = Some w"
  using find_window_None [of "windowBindings st" i]
  by (cases "find_window (windowBindings st) i") (auto simp: bound_to_live_window_def list_ex_iff)

lemma unbound_find:
  "keys_live st \<Longrightarrow> \<not> bound_to_live_window st i \<Longrightarrow>
   find_window (windowBindings st) i = None"
  by (cases "find_window (windowBindings st) i")
     (auto simp: bound_to_live_window_def keys_live_def list_ex_iff list_all_iff
           dest!: find_window_Some)

lemma map_of_map_keyed:
  "map_of (map (\<lambda>(k, v). (k, f k v)) xs) w = map_option (f w) (map_of xs w)"
  by (induction xs) auto

lemma tabs_query_remove:
  "tabs_remove n B = Some B' \<Longrightarrow> tabs_query B' w = drop_tab n (tabs_query B w)"
  by (auto simp: tabs_remove_def tabs_query_def map_of_map_keyed drop_tab_def
           split: option.splits)

lemma tabs_remove_frame:
  "tabs_remove n B = Some B' \<Longrightarrow> timeouts B' = timeouts B"
  by (auto simp: tabs_remove_def split: option.splits)

lemma live_map_of: "live B w \<Longrightarrow> \<exists>ts. map_of (windows B) w = Some ts"
  by (cases "map_of (windows B) w") (auto simp: live_def map_of_eq_None_iff)

lemma tabs_query_move:
  assumes "List.find (\<lambda>t. tab_id t = n) (all_tabs B) = Some t0" and "live B w"
  shows "\<exists>B'. tabs_move n w B = Some B' \<and>
           tabs_query B' w = drop_tab n (tabs_query B w) @ [t0] \<and>
           (\<forall>w'. w' \<noteq> w \<longrightarrow> tabs_query B' w' = drop_tab n (tabs_query B w'))"
proof -
  from assms(2) obtain ts where ts: "map_of (windows B) w = Some ts"
    by (blast dest: live_map_of)
  let ?B = "B\<lparr>windows :=
      map (\<lambda>(k, ts). (k, if k = w then drop_tab n ts @ [t0] else drop_tab n ts)) (windows B)\<rparr>"
  have m: "tabs_move n w B = Some ?B"
    using assms by (simp add: tabs_move_def)
  have a: "tabs_query ?B w = drop_tab n (tabs_query B w) @ [t0]"
    by (simp add: tabs_query_def map_of_map_keyed ts)
  have b: "w' \<noteq> w \<Longrightarrow> tabs_query ?B w' = drop_tab n (tabs_query B w')" for w'
    by (simp add: tabs_query_def map_of_map_keyed drop_tab_def split: option.splits)
  from m a b show ?thesis by blast
qed

lemma tabs_remove_live:
  "List.find (\<lambda>t. tab_id t = n) (all_tabs B) = Some t0 \<Longrightarrow> \<exists>B'. tabs_remove n B = Some B'"
  by (simp add: tabs_remove_def)

text \<open>
  In every state whose binding table names only live windows the move goes by the binding
  as the specification describes it: into the window of the target if the target is
  bound, and otherwise by one appended descriptor, one write with the version raised by
  1, no timer and no fingerprint write, and the tab removed from its window.
\<close>

lemma moveTabToWorkspace_by_binding:
  assumes "keys_live st"
      and "List.find (\<lambda>t. tab_id t = tab_id tab) (all_tabs (host st)) = Some t0"
  shows
   "(bound_to_live_window st target \<longrightarrow>
       (\<exists>w st'. moveTabToWorkspace H tab target st = (None, st') \<and>
          find_window (windowBindings st) target = Some w \<and> live (host st) w \<and>
          tabs_query (host st') w = drop_tab (tab_id tab) (tabs_query (host st) w) @ [t0] \<and>
          (\<forall>w'. w' \<noteq> w \<longrightarrow>
             tabs_query (host st') w' = drop_tab (tab_id tab) (tabs_query (host st) w')) \<and>
          store st' = store st \<and> new_writes st st' = [])) \<and>
    (\<not> bound_to_live_window st target \<longrightarrow>
       (\<exists>st'. moveTabToWorkspace H tab target st = (None, st') \<and>
          getWorkspaceTabs (store st') target =
            getWorkspaceTabs (store st) target @ [createTabDescriptor H tab] \<and>
          getWorkspaceVersion (store st') target = getWorkspaceVersion (store st) target + 1 \<and>
          new_writes st st' =
            [SaveWorkspaceTabs target
               (getWorkspaceTabs (store st) target @ [createTabDescriptor H tab])
               (getWorkspaceVersion (store st) target + 1)] \<and>
          hashes (store st') = hashes (store st) \<and>
          saveTimers st' = saveTimers st \<and>
          timeouts (host st') = timeouts (host st) \<and>
          (\<forall>w'. tabs_query (host st') w' =
                  drop_tab (tab_id tab) (tabs_query (host st) w'))))"
proof (intro conjI impI)
  assume "bound_to_live_window st target"
  then obtain w where w: "find_window (windowBindings st) target = Some w"
    by (blast dest: bound_live_find)
  with assms(1) have l: "live (host st) w"
    by (rule keys_live_find)
  from tabs_query_move [OF assms(2) l] obtain B' where
    B: "tabs_move (tab_id tab) w (host st) = Some B'"
       "tabs_query B' w = drop_tab (tab_id tab) (tabs_query (host st) w) @ [t0]"
       "\<forall>w'. w' \<noteq> w \<longrightarrow> tabs_query B' w' = drop_tab (tab_id tab) (tabs_query (host st) w')"
    by blast
  have "moveTabToWorkspace H tab target st = (None, st\<lparr>host := B'\<rparr>)"
    by (rule move_bound [OF w B(1)])
  moreover have "new_writes st (st\<lparr>host := B'\<rparr>) = []"
    by (simp add: new_writes_def)
  ultimately show "\<exists>w st'. moveTabToWorkspace H tab target st = (None, st') \<and>
          find_window (windowBindings st) target = Some w \<and> live (host st) w \<and>
          tabs_query (host st') w = drop_tab (tab_id tab) (tabs_query (host st) w) @ [t0] \<and>
          (\<forall>w'. w' \<noteq> w \<longrightarrow>
             tabs_query (host st') w' = drop_tab (tab_id tab) (tabs_query (host st) w')) \<and>
          store st' = store st \<and> new_writes st st' = []"
    using w l B(2,3) by simp
next
  assume "\<not> bound_to_live_window st target"
  with assms(1) have u: "find_window (windowBindings st) target = None"
    by (rule unbound_find)
  from tabs_remove_live [OF assms(2)] obtain B' where
    B: "tabs_remove (tab_id tab) (host st) = Some B'" by blast
  let ?ds = "getWorkspaceTabs (store st) target @ [createTabDescriptor H tab]"
  let ?v = "getWorkspaceVersion (store st) target + 1"
  let ?st = "st\<lparr>store := saveWorkspaceTabs target ?ds ?v (store st), host := B'\<rparr>"
  have m: "moveTabToWorkspace H tab target st = (None, ?st)"
    by (rule move_unbound [OF u B])
  have 1: "getWorkspaceTabs (store ?st) target = ?ds"
    by (simp add: getWorkspaceTabs_def saveWorkspaceTabs_def)
  have 2: "getWorkspaceVersion (store ?st) target = ?v"
    by (simp add: getWorkspaceVersion_def saveWorkspaceTabs_def)
  have 3: "new_writes st ?st = [SaveWorkspaceTabs target ?ds ?v]"
    by (simp add: new_writes_def saveWorkspaceTabs_def)
  have 4: "hashes (store ?st) = hashes (store st)" "saveTimers ?st = saveTimers st"
    by (simp_all add: saveWorkspaceTabs_def)
  have 5: "timeouts (host ?st) = timeouts (host st)"
    using tabs_remove_frame [OF B] by simp
  have 6: "\<forall>w'. tabs_query (host ?st) w' = drop_tab (tab_id tab) (tabs_query (host st) w')"
    using tabs_query_remove [OF B] by simp
  from m 1 2 3 4 5 6
  show "\<exists>st'. moveTabToWorkspace H tab target st = (None, st') \<and>
          getWorkspaceTabs (store st') target = ?ds \<and>
          getWorkspaceVersion (store st') target = ?v \<and>
          new_writes st st' = [SaveWorkspaceTabs target ?ds ?v] \<and>
          hashes (store st') = hashes (store st) \<and>
          saveTimers st' = saveTimers st \<and>
          timeouts (host st') = timeouts (host st) \<and>
          (\<forall>w'. tabs_query (host st') w' =
                  drop_tab (tab_id tab) (tabs_query (host st) w'))"
    by blast
qed

lemma sample_stale_arg: "window_arg stale_create = Some 9"
  by (simp add: window_arg_def stale_create_def truthy_num_def)

lemma sample_settings: "settings sample_state = Some sample_prefs"
  by (simp add: sample_state_def)

lemma stale_frame:
  "windowBindings stale_state = [(3, ''W1''), (9, ''W2'')]"
  "host stale_state = sample_browser"
proof -
  note s = createWorkspace_window_state [OF sample_stale_arg sample_settings,
      of sample_helpers sample_draws]
  have b: "windowBindings sample_state = [(3, ''W1'')]" "host sample_state = sample_browser"
    by (simp_all add: sample_state_def)
  show "windowBindings stale_state = [(3, ''W1''), (9, ''W2'')]"
    unfolding stale_state_def run_ops_def by (simp add: s b) (simp add: sample_draws_def)
  show "host stale_state = sample_browser"
    unfolding stale_state_def run_ops_def by (simp add: s b)
qed

text \<open>
  C6. The claim is that a move to a workspace that is not bound to a live window appends
  one descriptor to its stored snapshot, raises its version by 1 and removes the tab from
  its window. \<open>moveTabToWorkspace\<close> tests the binding, not the window: in the sample,
  \<open>W2\<close> was created from window 9, which is not live, so \<open>W2\<close> is bound to no live
  window. Moving the tab of window 4 to \<open>W2\<close> calls \<open>browser.tabs.move\<close> with window
  9, which rejects: nothing is appended, no version changes, and the tab stays where it
  was.
\<close>

theorem move_to_stale_binding_rejects:
  "stale_state =
     snd (createWorkspace sample_helpers sample_draws (Some stale_create) sample_state) \<and>
   find_window (windowBindings stale_state) ''W2'' = Some 9 \<and>
   \<not> live (host stale_state) 9 \<and>
   \<not> bound_to_live_window stale_state ''W2'' \<and>
   List.find (\<lambda>t. tab_id t = 15) (all_tabs (host stale_state)) =
     Some (sample_tab 15 ''https://d.example'') \<and>
   moveTabToWorkspace sample_helpers (sample_tab 15 ''https://d.example'') ''W2'' stale_state =
     (Some Rejected, stale_state)"
proof -
  have 1: "stale_state =
     snd (createWorkspace sample_helpers sample_draws (Some stale_create) sample_state)"
    by (simp add: stale_state_def run_ops_def)
  have 2: "find_window (windowBindings stale_state) ''W2'' = Some 9"
    by (simp add: stale_frame find_window_def)
  have 3: "\<not> live (host stale_state) 9"
    by (simp add: stale_frame live_def sample_browser_def)
  have 4: "\<not> bound_to_live_window stale_state ''W2''"
    by (simp add: bound_to_live_window_def stale_frame live_def sample_browser_def)
  have 5: "List.find (\<lambda>t. tab_id t = 15) (all_tabs (host stale_state)) =
     Some (sample_tab 15 ''https://d.example'')"
    by (simp add: stale_frame all_tabs_def sample_browser_def sample_tab_def)
  have t: "tab_id (sample_tab 15 ''https://d.example'') = 15"
    by (simp add: sample_tab_def)
  have "tabs_move 15 9 (host stale_state) = None"
    using 3 5 by (simp add: tabs_move_def)
  with 2 t have 6: "moveTabToWorkspace sample_helpers (sample_tab 15 ''https://d.example'')
      ''W2'' stale_state = (Some Rejected, stale_state)"
    by (simp add: moveTabToWorkspace_def)
  from 1 2 3 4 5 6 show ?thesis by (intro conjI)
qed

subsection \<open>Renaming a workspace\<close>

lemma update_first_nth:
  "List.find P xs = Some x \<Longrightarrow>
   \<exists>k < length xs. xs ! k = x \<and> (\<forall>m < k. \<not> P (xs ! m)) \<and> update_first P f xs = xs[k := f x]"
proof (induction xs)
  case Nil
  then show ?case by simp
next
  case (Cons y ys)
  show ?case
  proof (cases "P y")
    case True
    with Cons.prems have "y = x" by simp
    with True show ?thesis by (intro exI [of _ 0]) simp
  next
    case False
    with Cons.prems have "List.find P ys = Some x" by simp
    from Cons.IH [OF this] obtain k where
      k: "k < length ys" "ys ! k = x" "\<forall>m < k. \<not> P (ys ! m)" "update_first P f ys = ys[k := f x]"
      by blast
    have "\<forall>m < Suc k. \<not> P ((y # ys) ! m)"
      using False k(3) by (auto simp: nth_Cons split: nat.splits)
    with k False show ?thesis by (intro exI [of _ "Suc k"]) simp
  qed
qed

lemma find_update_first_same:
  "List.find P xs = Some x \<Longrightarrow> P (f x) \<Longrightarrow> List.find P (update_first P f xs) = Some (f x)"
  by (induction xs) (auto split: if_splits)

lemma find_update_first_other:
  "(\<And>y. P y \<Longrightarrow> \<not> Q y \<and> \<not> Q (f y)) \<Longrightarrow>
   List.find Q (update_first P f xs) = List.find Q xs"
  by (induction xs) auto

lemma rename_found:
  assumes "find_workspace (workspaceIndex st) i = Some ws"
  shows "renameWorkspace now i name st =
    (Success,
     st\<lparr>workspaceIndex := update_first (\<lambda>w. ws_id w = i)
            (\<lambda>w. w\<lparr>ws_name := name, updatedAt := now\<rparr>) (workspaceIndex st),
        store := saveWorkspaceIndex
          (update_first (\<lambda>w. ws_id w = i)
            (\<lambda>w. w\<lparr>ws_name := name, updatedAt := now\<rparr>) (workspaceIndex st)) (store st)\<rparr>)"
  using assms by (simp add: renameWorkspace_def Let_def)

lemma sample_find_W1:
  "find_workspace (workspaceIndex sample_state) ''W1'' = Some (sample_workspace ''W1'' ''Work'' 100)"
  by (simp add: sample_state_def find_workspace_def sample_workspace_def)

text \<open>
  C9, as amended. Renaming a workspace that the registry holds answers with success and
  changes exactly one registry entry, the first one with that id: its name becomes the
  supplied name and its \<open>updatedAt\<close> becomes the reading of \<open>Date.now()\<close>, which is
  strictly greater than the previous value whenever the clock reads later than that
  value. Every other position of the registry and the entry found for every other id stay
  as they were. The stored snapshot, fingerprint and version of the workspace (and of
  every other workspace) are unchanged; the only write is the one of the registry.
\<close>

theorem renameWorkspace_frame:
  assumes "find_workspace (workspaceIndex st) i = Some ws"
  shows "\<exists>st' k. renameWorkspace now i name st = (Success, st') \<and>
     k < length (workspaceIndex st) \<and> workspaceIndex st ! k = ws \<and>
     workspaceIndex st' = (workspaceIndex st)[k := ws\<lparr>ws_name := name, updatedAt := now\<rparr>] \<and>
     find_workspace (workspaceIndex st') i = Some (ws\<lparr>ws_name := name, updatedAt := now\<rparr>) \<and>
     (\<forall>j. j \<noteq> i \<longrightarrow>
        find_workspace (workspaceIndex st') j = find_workspace (workspaceIndex st) j) \<and>
     (updatedAt ws < now \<longrightarrow>
        updatedAt ws < updatedAt (ws\<lparr>ws_name := name, updatedAt := now\<rparr>)) \<and>
     snapshots (store st') = snapshots (store st) \<and>
     hashes (store st') = hashes (store st) \<and>
     getWorkspaceTabs (store st') i = getWorkspaceTabs (store st) i \<and>
     getLastHash (store st') i = getLastHash (store st) i \<and>
     getWorkspaceVersion (store st') i = getWorkspaceVersion (store st) i \<and>
     new_writes st st' = [SaveWorkspaceIndex (workspaceIndex st')] \<and>
     windowBindings st' = windowBindings st"
proof -
  let ?f = "\<lambda>w. w\<lparr>ws_name := name, updatedAt := now\<rparr>"
  let ?P = "\<lambda>w. ws_id w = i"
  let ?idx = "update_first ?P ?f (workspaceIndex st)"
  let ?st = "st\<lparr>workspaceIndex := ?idx, store := saveWorkspaceIndex ?idx (store st)\<rparr>"
  have f: "List.find ?P (workspaceIndex st) = Some ws"
    using assms by (simp add: find_workspace_def)
  have r: "renameWorkspace now i name st = (Success, ?st)"
    by (rule rename_found [OF assms])
  from update_first_nth [OF f, of ?f] obtain k where
    k: "k < length (workspaceIndex st)" "workspaceIndex st ! k = ws"
       "?idx = (workspaceIndex st)[k := ?f ws]"
    by blast
  from f have "ws_id ws = i" by (auto simp: find_Some_iff)
  then have "?P (?f ws)" by simp
  from find_update_first_same [where P = ?P and f = ?f and xs = "workspaceIndex st" and x = ws,
      OF f this]
  have 1: "find_workspace (workspaceIndex ?st) i = Some (?f ws)"
    by (simp add: find_workspace_def)
  have 2: "find_workspace (workspaceIndex ?st) j = find_workspace (workspaceIndex st) j"
    if "j \<noteq> i" for j
    using that find_update_first_other [of ?P "\<lambda>w. ws_id w = j" ?f "workspaceIndex st"]
    by (simp add: find_workspace_def)
  have 3: "snapshots (store ?st) = snapshots (store st)" "hashes (store ?st) = hashes (store st)"
    by (simp_all add: saveWorkspaceIndex_def)
  have 4: "getWorkspaceTabs (store ?st) i = getWorkspaceTabs (store st) i"
      "getLastHash (store ?st) i = getLastHash (store st) i"
      "getWorkspaceVersion (store ?st) i = getWorkspaceVersion (store st) i"
    by (simp_all add: getWorkspaceTabs_def getLastHash_def getWorkspaceVersion_def
          saveWorkspaceIndex_def)
  have 5: "new_writes st ?st = [SaveWorkspaceIndex (workspaceIndex ?st)]"
    by (simp add: new_writes_def saveWorkspaceIndex_def)
  have 6: "windowBindings ?st = windowBindings st" by simp
  have 7: "workspaceIndex ?st = (workspaceIndex st)[k := ?f ws]"
    using k(3) by simp
  have 8: "updatedAt ws < now \<longrightarrow> updatedAt ws < updatedAt (?f ws)" by simp
  from r k(1,2) 7 1 2 8 3 4 5 6 show ?thesis by blast
qed

theorem renameWorkspace_frame_witness:
  "find_workspace (workspaceIndex sample_state) ''W1'' =
     Some (sample_workspace ''W1'' ''Work'' 100) \<and>
   (\<exists>st'. renameWorkspace 700 ''W1'' ''Client A'' sample_state = (Success, st') \<and>
      map ws_name (workspaceIndex st') = [''Client A''] \<and>
      map updatedAt (workspaceIndex st') = [700] \<and>
      snapshots (store st') = snapshots (store sample_state) \<and>
      hashes (store st') = hashes (store sample_state))"
proof -
  have i: "workspaceIndex sample_state = [sample_workspace ''W1'' ''Work'' 100]"
    by (simp add: sample_state_def)
  from renameWorkspace_frame [OF sample_find_W1, of 700 "''Client A''"]
  obtain st' k where r:
    "renameWorkspace 700 ''W1'' ''Client A'' sample_state = (Success, st')"
    "k < length (workspaceIndex sample_state)"
    "workspaceIndex st' = (workspaceIndex sample_state)
       [k := (sample_workspace ''W1'' ''Work'' 100)\<lparr>ws_name := ''Client A'', updatedAt := 700\<rparr>]"
    "snapshots (store st') = snapshots (store sample_state)"
    "hashes (store st') = hashes (store sample_state)"
    by (elim exE conjE) (rule that; assumption)
  from r(2) have "k = 0" by (simp add: i)
  with r(3) have "map ws_name (workspaceIndex st') = [''Client A'']"
    "map updatedAt (workspaceIndex st') = [700]"
    by (simp_all add: i)
  with r(1,4,5) sample_find_W1 show ?thesis by - (intro conjI exI [of _ st']; assumption)
qed

text \<open>
  C9 as stated fails when the clock does not read later than the entry's \<open>updatedAt\<close>:
  the sample entry was last updated at 100, and a rename at clock reading 100 sets the
  name and leaves \<open>updatedAt\<close> at 100, which is not strictly greater.
\<close>

theorem renameWorkspace_same_clock_counterexample:
  "map updatedAt (workspaceIndex sample_state) = [100] \<and>
   fst (renameWorkspace 100 ''W1'' ''Client A'' sample_state) = Success \<and>
   map ws_name (workspaceIndex (snd (renameWorkspace 100 ''W1'' ''Client A'' sample_state))) =
     [''Client A''] \<and>
   map updatedAt (workspaceIndex (snd (renameWorkspace 100 ''W1'' ''Client A'' sample_state))) =
     [100]"
proof -
  have i: "workspaceIndex sample_state = [sample_workspace ''W1'' ''Work'' 100]"
    by (simp add: sample_state_def)
  note r = rename_found [OF sample_find_W1, of 100 "''Client A''"]
  have 1: "map updatedAt (workspaceIndex sample_state) = [100]"
    by (simp add: i sample_workspace_def)
  have 2: "fst (renameWorkspace 100 ''W1'' ''Client A'' sample_state) = Success"
    unfolding r by simp
  have 3: "map ws_name (workspaceIndex (snd (renameWorkspace 100 ''W1'' ''Client A''
             sample_state))) = [''Client A'']"
    unfolding r by (simp add: i sample_workspace_def)
  have 4: "map updatedAt (workspaceIndex (snd (renameWorkspace 100 ''W1'' ''Client A''
             sample_state))) = [100]"
    unfolding r by (simp add: i sample_workspace_def)
  from 1 2 3 4 show ?thesis by blast
qed

subsection \<open>Answers of the message handler\<close>

lemma createWorkspace_Some:
  assumes "settings st = Some p"
  shows "\<exists>ws st'. createWorkspace H D (Some d) st = (Inr (Created ws), st')"
  using assms
  by (simp add: createWorkspace_def Let_def capture_Some split: option.splits prod.splits)

lemma createWorkspace_blank_returns:
  assumes "window_arg d = None"
  shows "\<exists>ws st'. createWorkspace H D (Some d) st = (Inr (Created ws), st')"
  using assms by (simp add: createWorkspace_def Let_def)

lemma openWorkspace_Some:
  assumes "settings st = Some p"
  shows "\<exists>r st'. openWorkspace H i st = (Inr r, st')"
  using assms
  by (simp add: openWorkspace_def returned_def split: option.splits)

lemma with_id_Inr:
  assumes "\<And>i. \<exists>r st'. f i st = (Inr r, st')"
  shows "\<exists>r st'. with_id wid f st = (Inr r, st')"
  using assms by (cases wid) (simp_all add: with_id_def)

lemma handleMessage_unknown:
  "action m \<notin> set known_actions \<Longrightarrow>
   handleMessage H D m st = (Inr (Error ''Unknown action''), st)"
  by (simp add: handleMessage_def known_actions_def)

lemma with_id_not_found:
  assumes "\<forall>i. wid = Some i \<longrightarrow> find_workspace (workspaceIndex st) i = None"
  shows "with_id wid (openWorkspace H) st = (Inr (Error ''Workspace not found''), st)"
    and "with_id wid (\<lambda>i s. returned (deleteWorkspace i s)) st =
           (Inr (Error ''Workspace not found''), st)"
    and "with_id wid (\<lambda>i s. returned (renameWorkspace now i name s)) st =
           (Inr (Error ''Workspace not found''), st)"
    and "with_id wid (\<lambda>i s. returned (toggleWorkspacePin i s)) st =
           (Inr (Error ''Workspace not found''), st)"
  using assms
  by (cases wid; simp add: with_id_def returned_def openWorkspace_def deleteWorkspace_def
        renameWorkspace_def toggleWorkspacePin_def)+

lemma handleMessage_not_found:
  assumes "action m \<in> set lookup_actions"
      and "\<forall>i. msg_workspaceId m = Some i \<longrightarrow> find_workspace (workspaceIndex st) i = None"
  shows "handleMessage H D m st = (Inr (Error ''Workspace not found''), st)"
proof -
  note nf = with_id_not_found [OF assms(2)]
  from assms(1) consider "action m = ''openWorkspace''" | "action m = ''deleteWorkspace''"
    | "action m = ''renameWorkspace''" | "action m = ''togglePin''"
    by (auto simp: lookup_actions_def)
  then show ?thesis
  proof cases
    case 1
    then show ?thesis by (simp add: handleMessage_def nf)
  next
    case 2
    then show ?thesis by (simp add: handleMessage_def nf)
  next
    case 3
    then show ?thesis by (simp add: handleMessage_def nf)
  next
    case 4
    then show ?thesis by (simp add: handleMessage_def nf)
  qed
qed

lemma handleMessage_returns:
  assumes "action m = ''createWorkspace'' \<longrightarrow>
             (\<exists>d. msg_data m = Some d \<and> (window_arg d = None \<or> settings st \<noteq> None))"
      and "action m = ''openWorkspace'' \<longrightarrow> settings st \<noteq> None"
  shows "\<exists>r st'. handleMessage H D m st = (Inr r, st')"
proof -
  consider "action m = ''createWorkspace''" | "action m = ''openWorkspace''"
    | "action m \<noteq> ''createWorkspace''" "action m \<noteq> ''openWorkspace''"
    by blast
  then show ?thesis
  proof cases
    case 1
    with assms(1) obtain d where d: "msg_data m = Some d"
      and c: "window_arg d = None \<or> settings st \<noteq> None" by auto
    from 1 d have h: "handleMessage H D m st = createWorkspace H D (Some d) st"
      by (simp add: handleMessage_def)
    from c have "\<exists>ws st'. createWorkspace H D (Some d) st = (Inr (Created ws), st')"
    proof
      assume "window_arg d = None"
      then show ?thesis by (rule createWorkspace_blank_returns)
    next
      assume "settings st \<noteq> None"
      then obtain p where "settings st = Some p" by auto
      then show ?thesis by (rule createWorkspace_Some)
    qed
    with h show ?thesis by auto
  next
    case 2
    with assms(2) obtain p where p: "settings st = Some p" by auto
    from 2 have "handleMessage H D m st = with_id (msg_workspaceId m) (openWorkspace H) st"
      by (simp add: handleMessage_def)
    with with_id_Inr [of "openWorkspace H" st "msg_workspaceId m"]
      openWorkspace_Some [OF p, of H]
    show ?thesis by simp
  next
    case 3
    have w: "\<exists>r st'. with_id (msg_workspaceId m) (\<lambda>i s. returned (f i s)) st = (Inr r, st')"
      for f
      by (rule with_id_Inr) (simp add: returned_def)
    from 3 show ?thesis
      by (simp add: handleMessage_def w)
  qed
qed

lemma unset_frame:
  "fst (handleMessage sample_helpers sample_draws
          (sample_message\<lparr>action := ''saveSettings'', msg_settings := None\<rparr>) sample_state) =
     Inr Success"
  "settings unset_state = None"
  "workspaceIndex unset_state = workspaceIndex sample_state"
  "windowBindings unset_state = windowBindings sample_state"
  "host unset_state = host sample_state"
  by (simp_all add: unset_state_def handleMessage_def sample_message_def)

text \<open>
  C7, as amended. For every message that carries the data its action reads (a
  \<open>createWorkspace\<close> message with a \<open>data\<close> object) and that, when it opens a
  workspace or creates one from a window, is handled while the settings object is defined,
  the handler resolves to a payload or to an error object and throws nothing; the other
  eight actions, and creating a blank workspace, need no settings object. Each of the four operations that look a workspace id up (open, delete, rename,
  toggle-pin) answers \<open>{error: 'Workspace not found'}\<close> when the id is missing or is not
  in the registry, and changes nothing. A message whose action is not one of the ten cases
  of the \<open>switch\<close> is answered with \<open>{error: 'Unknown action'}\<close>, and changes nothing.
\<close>

theorem handleMessage_answers:
  "((action m = ''createWorkspace'' \<longrightarrow>
       (\<exists>d. msg_data m = Some d \<and> (window_arg d = None \<or> settings st \<noteq> None))) \<and>
    (action m = ''openWorkspace'' \<longrightarrow> settings st \<noteq> None) \<longrightarrow>
      (\<exists>r st'. handleMessage H D m st = (Inr r, st'))) \<and>
   (action m \<in> set lookup_actions \<and>
    (\<forall>i. msg_workspaceId m = Some i \<longrightarrow> find_workspace (workspaceIndex st) i = None) \<longrightarrow>
      handleMessage H D m st = (Inr (Error ''Workspace not found''), st)) \<and>
   (action m \<notin> set known_actions \<longrightarrow>
      handleMessage H D m st = (Inr (Error ''Unknown action''), st))"
proof (intro conjI impI)
  assume "(action m = ''createWorkspace'' \<longrightarrow>
       (\<exists>d. msg_data m = Some d \<and> (window_arg d = None \<or> settings st \<noteq> None))) \<and>
    (action m = ''openWorkspace'' \<longrightarrow> settings st \<noteq> None)"
  then show "\<exists>r st'. handleMessage H D m st = (Inr r, st')"
    by (intro handleMessage_returns) simp_all
next
  assume "action m \<in> set lookup_actions \<and>
    (\<forall>i. msg_workspaceId m = Some i \<longrightarrow> find_workspace (workspaceIndex st) i = None)"
  then show "handleMessage H D m st = (Inr (Error ''Workspace not found''), st)"
    by (simp add: handleMessage_not_found)
next
  assume "action m \<notin> set known_actions"
  then show "handleMessage H D m st = (Inr (Error ''Unknown action''), st)"
    by (rule handleMessage_unknown)
qed

theorem handleMessage_answers_witness:
  "settings sample_state \<noteq> None \<and>
   (\<exists>r st'. handleMessage sample_helpers sample_draws
       (sample_message\<lparr>msg_data := Some sample_create\<rparr>) sample_state = (Inr r, st')) \<and>
   (\<exists>r st'. handleMessage sample_helpers sample_draws open_message sample_state = (Inr r, st')) \<and>
   settings unset_state = None \<and>
   (\<exists>r st'. handleMessage sample_helpers sample_draws
       (sample_message\<lparr>action := ''getSettings''\<rparr>) unset_state = (Inr r, st')) \<and>
   handleMessage sample_helpers sample_draws
     (sample_message\<lparr>action := ''renameWorkspace'', msg_workspaceId := Some ''W9''\<rparr>)
     sample_state = (Inr (Error ''Workspace not found''), sample_state) \<and>
   handleMessage sample_helpers sample_draws (sample_message\<lparr>action := ''archive''\<rparr>)
     sample_state = (Inr (Error ''Unknown action''), sample_state)"
proof (intro conjI)
  show s: "settings sample_state \<noteq> None" by (simp add: sample_settings)
  let ?m1 = "sample_message\<lparr>msg_data := Some sample_create\<rparr>"
  have "(action ?m1 = ''createWorkspace'' \<longrightarrow>
       (\<exists>d. msg_data ?m1 = Some d \<and> (window_arg d = None \<or> settings sample_state \<noteq> None))) \<and>
    (action ?m1 = ''openWorkspace'' \<longrightarrow> settings sample_state \<noteq> None)"
    using s by simp
  with handleMessage_answers [of ?m1 sample_state sample_helpers sample_draws]
  show "\<exists>r st'. handleMessage sample_helpers sample_draws ?m1 sample_state = (Inr r, st')"
    by (rule conjunct1 [THEN mp])
  have "(action open_message = ''createWorkspace'' \<longrightarrow>
       (\<exists>d. msg_data open_message = Some d \<and>
            (window_arg d = None \<or> settings sample_state \<noteq> None))) \<and>
    (action open_message = ''openWorkspace'' \<longrightarrow> settings sample_state \<noteq> None)"
    using s by (simp add: open_message_def sample_message_def)
  with handleMessage_answers [of open_message sample_state sample_helpers sample_draws]
  show "\<exists>r st'. handleMessage sample_helpers sample_draws open_message sample_state =
          (Inr r, st')"
    by (rule conjunct1 [THEN mp])
  show "settings unset_state = None" by (rule unset_frame)
  let ?m0 = "sample_message\<lparr>action := ''getSettings''\<rparr>"
  have "(action ?m0 = ''createWorkspace'' \<longrightarrow>
       (\<exists>d. msg_data ?m0 = Some d \<and> (window_arg d = None \<or> settings unset_state \<noteq> None))) \<and>
    (action ?m0 = ''openWorkspace'' \<longrightarrow> settings unset_state \<noteq> None)"
    by simp
  with handleMessage_answers [of ?m0 unset_state sample_helpers sample_draws]
  show "\<exists>r st'. handleMessage sample_helpers sample_draws ?m0 unset_state = (Inr r, st')"
    by (rule conjunct1 [THEN mp])
  let ?m2 = "sample_message\<lparr>action := ''renameWorkspace'', msg_workspaceId := Some ''W9''\<rparr>"
  have "action ?m2 \<in> set lookup_actions \<and>
    (\<forall>i. msg_workspaceId ?m2 = Some i \<longrightarrow>
       find_workspace (workspaceIndex sample_state) i = None)"
    by (simp add: lookup_actions_def find_workspace_def sample_state_def sample_workspace_def)
  with handleMessage_answers [of ?m2 sample_state sample_helpers sample_draws]
  show "handleMessage sample_helpers sample_draws ?m2 sample_state =
          (Inr (Error ''Workspace not found''), sample_state)"
    by (rule conjunct2 [THEN conjunct1, THEN mp])
  let ?m3 = "sample_message\<lparr>action := ''archive''\<rparr>"
  have "action ?m3 \<notin> set known_actions"
    by (simp add: known_actions_def)
  with handleMessage_answers [of ?m3 sample_state sample_helpers sample_draws]
  show "handleMessage sample_helpers sample_draws ?m3 sample_state =
          (Inr (Error ''Unknown action''), sample_state)"
    by (rule conjunct2 [THEN conjunct2, THEN mp])
qed

text \<open>
  C7 as stated fails in two ways. A \<open>createWorkspace\<close> message without \<open>data\<close> makes
  the destructuring in \<open>createWorkspace\<close> throw. And a \<open>saveSettings\<close> message without
  \<open>settings\<close> is answered with success and leaves the variable \<open>settings\<close> undefined;
  after it a message that carries all its data, the request to open the bound workspace
  \<open>W1\<close>, throws at \<open>settings.focusExistingWindow\<close>, and so does the request to create
  a workspace from window 3, at \<open>settings.includePinnedTabs\<close>. Neither \<open>handleMessage\<close> nor the
  listener catches: the promise is rejected instead of resolving to an error object.
\<close>

theorem handleMessage_throws_counterexample:
  "handleMessage sample_helpers sample_draws sample_message sample_state =
     (Inl TypeError, sample_state) \<and>
   fst (handleMessage sample_helpers sample_draws
          (sample_message\<lparr>action := ''saveSettings'', msg_settings := None\<rparr>) sample_state) =
     Inr Success \<and>
   unset_state =
     snd (handleMessage sample_helpers sample_draws
            (sample_message\<lparr>action := ''saveSettings'', msg_settings := None\<rparr>) sample_state) \<and>
   msg_workspaceId open_message = Some ''W1'' \<and>
   handleMessage sample_helpers sample_draws open_message unset_state =
     (Inl TypeError, unset_state) \<and>
   handleMessage sample_helpers sample_draws
     (sample_message\<lparr>msg_data := Some sample_create\<rparr>) unset_state =
     (Inl TypeError, unset_state)"
proof (intro conjI)
  show "handleMessage sample_helpers sample_draws sample_message sample_state =
     (Inl TypeError, sample_state)"
    by (simp add: handleMessage_def sample_message_def createWorkspace_def)
  show "fst (handleMessage sample_helpers sample_draws
          (sample_message\<lparr>action := ''saveSettings'', msg_settings := None\<rparr>) sample_state) =
     Inr Success"
    by (rule unset_frame)
  show "unset_state =
     snd (handleMessage sample_helpers sample_draws
            (sample_message\<lparr>action := ''saveSettings'', msg_settings := None\<rparr>) sample_state)"
    by (simp add: unset_state_def)
  show "msg_workspaceId open_message = Some ''W1''"
    by (simp add: open_message_def)
  have f: "find_workspace (workspaceIndex unset_state) ''W1'' =
             Some (sample_workspace ''W1'' ''Work'' 100)"
    by (simp add: unset_frame sample_find_W1)
  have w: "find_window (windowBindings unset_state) ''W1'' = Some 3"
    by (simp add: unset_frame) (simp add: sample_state_def find_window_def)
  have "handleMessage sample_helpers sample_draws open_message unset_state =
          openWorkspace sample_helpers ''W1'' unset_state"
    by (simp add: handleMessage_def open_message_def sample_message_def with_id_def)
  also have "\<dots> = (Inl TypeError, unset_state)"
    unfolding openWorkspace_def f w by (simp add: unset_frame(2))
  finally show "handleMessage sample_helpers sample_draws open_message unset_state =
     (Inl TypeError, unset_state)" .
  have a: "window_arg sample_create = Some 3"
    by (simp add: window_arg_def sample_create_def truthy_num_def)
  have c: "capture sample_helpers (settings unset_state) (tabs_query (host unset_state) 3) = None"
    unfolding unset_frame
    by (simp add: capture_def sample_helpers_def sample_state_def sample_browser_def
          tabs_query_def sample_tab_def)
  have "handleMessage sample_helpers sample_draws
     (sample_message\<lparr>msg_data := Some sample_create\<rparr>) unset_state =
       createWorkspace sample_helpers sample_draws (Some sample_create) unset_state"
    by (simp add: handleMessage_def sample_message_def)
  also have "\<dots> = (Inl TypeError, unset_state)"
    using a c by (simp add: createWorkspace_def Let_def)
  finally show "handleMessage sample_helpers sample_draws
     (sample_message\<lparr>msg_data := Some sample_create\<rparr>) unset_state =
     (Inl TypeError, unset_state)" .
qed

subsection \<open>The debounce timer and the binding\<close>

lemma tabs_create_frame:
  "timeouts (tabs_create w url B) = timeouts B"
  "lastWindowId (tabs_create w url B) = lastWindowId B"
  "map fst (windows (tabs_create w url B)) = map fst (windows B)"
  by (simp_all add: tabs_create_def Let_def case_prod_unfold comp_def)

lemma tabs_pin_frame:
  "timeouts (tabs_pin n B) = timeouts B"
  "lastWindowId (tabs_pin n B) = lastWindowId B"
  "map fst (windows (tabs_pin n B)) = map fst (windows B)"
  by (simp_all add: tabs_pin_def case_prod_unfold comp_def)

lemma fold_tabs_create_frame:
  "timeouts (fold (tabs_create w) urls B) = timeouts B \<and>
   lastWindowId (fold (tabs_create w) urls B) = lastWindowId B \<and>
   map fst (windows (fold (tabs_create w) urls B)) = map fst (windows B)"
  by (induction urls arbitrary: B) (simp_all add: tabs_create_frame)

lemma fold_tabs_pin_frame:
  "timeouts (fold (\<lambda>(d, t) B. if desc_p d then tabs_pin (tab_id t) B else B) ps B) = timeouts B \<and>
   lastWindowId (fold (\<lambda>(d, t) B. if desc_p d then tabs_pin (tab_id t) B else B) ps B) =
     lastWindowId B \<and>
   map fst (windows (fold (\<lambda>(d, t) B. if desc_p d then tabs_pin (tab_id t) B else B) ps B)) =
     map fst (windows B)"
  by (induction ps arbitrary: B) (simp_all add: tabs_pin_frame case_prod_unfold)

lemma open_new_window_host:
  "timeouts (host (snd (open_new_window H i st))) = timeouts (host st) \<and>
   lastWindowId (host (snd (open_new_window H i st))) = Suc (lastWindowId (host st)) \<and>
   map fst (windows (host (snd (open_new_window H i st)))) =
     map fst (windows (host st)) @ [Suc (lastWindowId (host st))]"
  by (simp add: open_new_window_def Let_def windows_create_def fold_tabs_create_frame
        fold_tabs_pin_frame)

lemma open_new_window_state:
  "windowBindings (snd (open_new_window H i st)) =
     bind_set (Suc (lastWindowId (host st))) i (windowBindings st)"
  "workspaceIndex (snd (open_new_window H i st)) = workspaceIndex st"
  "settings (snd (open_new_window H i st)) = settings st"
  by (simp_all add: open_new_window_def Let_def windows_create_def)

lemma createWorkspace_frame:
  "host (snd (createWorkspace H D data st)) = host st"
  "settings (snd (createWorkspace H D data st)) = settings st"
  by (simp_all add: createWorkspace_def Let_def split: option.splits prod.splits)

lemma openWorkspace_frame:
  "timeouts (host (snd (openWorkspace H i st))) = timeouts (host st)"
  "settings (snd (openWorkspace H i st)) = settings st"
  by (simp_all add: openWorkspace_def returned_def open_new_window_host open_new_window_state
        split: option.splits)

lemma deleteWorkspace_frame:
  "host (snd (deleteWorkspace i st)) = host st"
  "settings (snd (deleteWorkspace i st)) = settings st"
  by (simp_all add: deleteWorkspace_def Let_def split: option.splits)

lemma close_window_frame:
  "timeouts (host (close_window w st)) = timeouts (host st)"
  "settings (close_window w st) = settings st"
  by (simp_all add: close_window_def onWindowRemoved_def Let_def split: option.splits)

lemma cleanupStaleBindings_frame:
  "host (cleanupStaleBindings st) = host st"
  "settings (cleanupStaleBindings st) = settings st"
  by (simp_all add: cleanupStaleBindings_def Let_def)

lemma run_op_frame:
  "timeouts (host (run_op H x st)) = timeouts (host st)"
  "settings (run_op H x st) = settings st"
  by (cases x; simp add: createWorkspace_frame openWorkspace_frame deleteWorkspace_frame
        close_window_frame cleanupStaleBindings_frame)+

lemma run_ops_frame:
  "timeouts (host (run_ops H ops st)) = timeouts (host st) \<and>
   settings (run_ops H ops st) = settings st"
  unfolding run_ops_def
  by (induction ops arbitrary: st) (simp_all add: run_op_frame)

lemma handleTabChange_arms:
  assumes "settings st = Some p" and "autoSave p" and "w \<noteq> 0"
      and "binding_of (windowBindings st) w = Some i" and "i \<noteq> []"
  shows "map_of (timeouts (host (handleTabChange \<lparr>info_windowId = Some w, info_id = x\<rparr> st)))
           (Suc (lastTimerId (host st))) = Some (i, w)"
  using assms
  by (simp add: handleTabChange_def js_or_def truthy_num_def truthy_id_def Let_def)

lemma sample_bound:
  "autoSave sample_prefs" "binding_of (windowBindings sample_state) 3 = Some ''W1''"
  by (simp_all add: sample_state_def sample_prefs_def binding_of_def)

lemma armed_frame:
  "windowBindings armed_state = [(3, ''W1'')]"
  "store armed_state = store sample_state"
  "settings armed_state = Some sample_prefs"
  "windows (host armed_state) = windows sample_browser"
  "workspaceIndex armed_state = workspaceIndex sample_state"
  by (simp_all add: armed_state_def sample_change_def handleTabChange_def js_or_def
        truthy_num_def truthy_id_def Let_def sample_bound sample_settings)
     (simp_all add: sample_state_def)

lemma armed_timer:
  "map_of (timeouts (host armed_state)) (Suc 0) = Some (''W1'', 3)"
proof -
  have "lastTimerId (host sample_state) = 0"
    by (simp add: sample_state_def sample_browser_def)
  with handleTabChange_arms [OF sample_settings, of 3 "''W1''" None] sample_bound
  show ?thesis by (simp add: armed_state_def sample_change_def)
qed

lemma sample_window_arg: "window_arg sample_create = Some 3"
  by (simp add: window_arg_def sample_create_def truthy_num_def)

lemma rebound_frame:
  "windowBindings rebound_state = [(3, ''W2'')]"
  "settings rebound_state = Some sample_prefs"
  "windows (host rebound_state) = windows sample_browser"
  "map_of (timeouts (host rebound_state)) (Suc 0) = Some (''W1'', 3)"
  "hashes (store rebound_state) ''W1'' = None"
  "getWorkspaceVersion (store rebound_state) ''W1'' = 1"
  by (simp_all add: rebound_state_def run_ops_def createWorkspace_window_state
        [OF sample_window_arg armed_frame(3)] armed_frame armed_timer sample_draws_def
        saveWorkspaceTabs_def
        saveWorkspaceIndex_def saveWindowBindings_def getWorkspaceVersion_def)
     (simp_all add: sample_state_def empty_storage_def)

lemma rebound_fire:
  "timer_fired sample_helpers 900 (Suc 0) rebound_state =
     saveWorkspaceSnapshot sample_helpers 900 ''W1'' 3
       (rebound_state\<lparr>host := (host rebound_state)
          \<lparr>timeouts := clearTimeout (Suc 0) (timeouts (host rebound_state))\<rparr>\<rparr>)"
  by (simp add: timer_fired_def rebound_frame)

lemma rebound_descs:
  "capture_descriptors sample_helpers sample_prefs (tabs_query (host rebound_state) 3) =
   [\<lparr>desc_u = ''https://a.example'', desc_t = Some ''t'', desc_p = False\<rparr>,
    \<lparr>desc_u = ''https://b.example'', desc_t = Some ''t'', desc_p = False\<rparr>,
    \<lparr>desc_u = ''https://c.example'', desc_t = Some ''t'', desc_p = False\<rparr>]"
  by (simp add: tabs_query_def rebound_frame)
     (simp add: capture_descriptors_def sample_helpers_def sample_browser_def sample_tab_def
        sample_prefs_def)

text \<open>
  C1, as amended. When a window-mutation event arms a debounce timer (auto-save is on and
  the window is bound to a workspace), the timer remembers the workspace id and the
  window id of that event. Whatever creations, openings, deletions, window closings and
  reaps happen before the timer fires, and however they change the binding of the
  workspace, the firing runs the snapshot capture for that workspace id and that window
  id: it reads the tabs of the window the event came from and nothing re-resolves the
  binding.
\<close>

theorem timer_captures_queued_window:
  assumes "settings st = Some p" and "autoSave p" and "w \<noteq> 0"
      and "binding_of (windowBindings st) w = Some i" and "i \<noteq> []"
  shows "(let h = Suc (lastTimerId (host st));
              st1 = handleTabChange \<lparr>info_windowId = Some w, info_id = x\<rparr> st;
              st2 = run_ops H ops st1
          in timer_fired H now h st2 =
             saveWorkspaceSnapshot H now i w
               (st2\<lparr>host := (host st2)\<lparr>timeouts := clearTimeout h (timeouts (host st2))\<rparr>\<rparr>))"
proof -
  let ?st1 = "handleTabChange \<lparr>info_windowId = Some w, info_id = x\<rparr> st"
  have "map_of (timeouts (host (run_ops H ops ?st1))) (Suc (lastTimerId (host st))) = Some (i, w)"
    using handleTabChange_arms [OF assms] run_ops_frame [of H ops ?st1] by simp
  then show ?thesis
    by (simp add: timer_fired_def Let_def)
qed

theorem timer_captures_queued_window_witness:
  "settings sample_state = Some sample_prefs \<and> autoSave sample_prefs \<and> (3::nat) \<noteq> 0 \<and>
   binding_of (windowBindings sample_state) 3 = Some ''W1'' \<and> ''W1'' \<noteq> [] \<and>
   find_window (windowBindings
     (run_ops sample_helpers [Create sample_draws sample_create]
        (handleTabChange \<lparr>info_windowId = Some 3, info_id = None\<rparr> sample_state))) ''W1'' = None \<and>
   timer_fired sample_helpers 900 (Suc (lastTimerId (host sample_state)))
     (run_ops sample_helpers [Create sample_draws sample_create]
        (handleTabChange \<lparr>info_windowId = Some 3, info_id = None\<rparr> sample_state)) =
   saveWorkspaceSnapshot sample_helpers 900 ''W1'' 3
     ((run_ops sample_helpers [Create sample_draws sample_create]
        (handleTabChange \<lparr>info_windowId = Some 3, info_id = None\<rparr> sample_state))
      \<lparr>host := (host (run_ops sample_helpers [Create sample_draws sample_create]
                 (handleTabChange \<lparr>info_windowId = Some 3, info_id = None\<rparr> sample_state)))
         \<lparr>timeouts := clearTimeout (Suc (lastTimerId (host sample_state)))
            (timeouts (host (run_ops sample_helpers [Create sample_draws sample_create]
               (handleTabChange \<lparr>info_windowId = Some 3, info_id = None\<rparr>
                  sample_state))))\<rparr>\<rparr>)"
proof -
  have s: "settings sample_state = Some sample_prefs" by (rule sample_settings)
  have a: "autoSave sample_prefs" by (rule sample_bound)
  have b: "(3::nat) \<noteq> 0" by simp
  have c: "binding_of (windowBindings sample_state) 3 = Some ''W1''" by (rule sample_bound)
  have d: "''W1'' \<noteq> []" by simp
  have e: "find_window (windowBindings
     (run_ops sample_helpers [Create sample_draws sample_create]
        (handleTabChange \<lparr>info_windowId = Some 3, info_id = None\<rparr> sample_state))) ''W1'' = None"
    using rebound_frame(1)
    by (simp add: rebound_state_def armed_state_def sample_change_def find_window_def)
  note t = timer_captures_queued_window [OF s a b c d, of None sample_helpers
      "[Create sample_draws sample_create]" 900, unfolded Let_def]
  from s a b c d e t show ?thesis by (intro conjI)
qed

text \<open>
  C1 as stated fails. In the sample a tab of window 3 changes while window 3 is bound to
  \<open>W1\<close>; then window 3 is turned into the new workspace \<open>W2\<close>, so that \<open>W1\<close> is bound
  to no window when the timer fires. The capture is no no-op: it writes the tabs of
  window 3 into \<open>W1\<close> as version 2.
\<close>

theorem stale_window_capture_counterexample:
  "find_window (windowBindings rebound_state) ''W1'' = None \<and>
   binding_of (windowBindings rebound_state) 3 = Some ''W2'' \<and>
   getWorkspaceVersion (store rebound_state) ''W1'' = 1 \<and>
   getWorkspaceVersion (store (timer_fired sample_helpers 900 (Suc 0) rebound_state)) ''W1'' = 2 \<and>
   getWorkspaceTabs (store (timer_fired sample_helpers 900 (Suc 0) rebound_state)) ''W1'' =
     capture_descriptors sample_helpers sample_prefs (tabs_query (host rebound_state) 3) \<and>
   timer_fired sample_helpers 900 (Suc 0) rebound_state \<noteq> rebound_state"
proof -
  let ?st = "rebound_state\<lparr>host := (host rebound_state)
          \<lparr>timeouts := clearTimeout (Suc 0) (timeouts (host rebound_state))\<rparr>\<rparr>"
  have 1: "find_window (windowBindings rebound_state) ''W1'' = None"
    by (simp add: rebound_frame find_window_def)
  have 2: "binding_of (windowBindings rebound_state) 3 = Some ''W2''"
    by (simp add: rebound_frame binding_of_def)
  have 3: "getWorkspaceVersion (store rebound_state) ''W1'' = 1"
    by (simp add: rebound_frame)
  have h: "getLastHash (store ?st) ''W1'' = None"
    by (simp add: getLastHash_def rebound_frame)
  have c: "capture sample_helpers (settings ?st) (tabs_query (host ?st) 3) =
     Some (capture_descriptors sample_helpers sample_prefs (tabs_query (host rebound_state) 3))"
    by (simp add: rebound_frame capture_Some tabs_query_def)
  have 4: "getWorkspaceVersion (store (timer_fired sample_helpers 900 (Suc 0) rebound_state))
             ''W1'' = 2"
    unfolding rebound_fire snapshot_version h c by (simp add: rebound_frame)
  have 5: "getWorkspaceTabs (store (timer_fired sample_helpers 900 (Suc 0) rebound_state)) ''W1'' =
     capture_descriptors sample_helpers sample_prefs (tabs_query (host rebound_state) 3)"
    unfolding rebound_fire saveWorkspaceSnapshot_def c
    using h
    by (simp add: Let_def getWorkspaceTabs_def saveLastHash_def
          saveWorkspaceTabs_def saveWorkspaceIndex_def rebound_frame tabs_query_def)
  from 3 4 have 6: "timer_fired sample_helpers 900 (Suc 0) rebound_state \<noteq> rebound_state"
    by auto
  from 1 2 3 4 5 6 show ?thesis by simp
qed

subsection \<open>The binding table under sequences of operations\<close>

lemma set_bind_set: "set (bind_set w v b) \<subseteq> insert (w, v) (set b)"
  by (induction b) (auto split: if_splits)

lemma map_fst_bind_set: "set (map fst (bind_set w v b)) = insert w (set (map fst b))"
proof (induction b)
  case Nil
  show ?case by simp
next
  case (Cons p b)
  obtain k x where p: "p = (k, x)" by (cases p)
  show ?case
  proof (cases "w = k")
    case True
    then show ?thesis by (simp add: p)
  next
    case False
    then show ?thesis using Cons.IH by (cases "w < k") (simp_all add: p insert_commute)
  qed
qed

lemma keys_bind_set: "fst ` set (bind_set w v b) = insert w (fst ` set b)"
  using map_fst_bind_set [of w v b] by simp

lemma sorted_bind_set:
  "sorted_wrt (<) (map fst b) \<Longrightarrow> sorted_wrt (<) (map fst (bind_set w v b))"
proof (induction b)
  case Nil
  show ?case by simp
next
  case (Cons p b)
  obtain k x where p: "p = (k, x)" by (cases p)
  from Cons.prems have s: "sorted_wrt (<) (map fst b)" and lt: "\<forall>y \<in> fst ` set b. k < y"
    by (auto simp: p)
  show ?case
  proof (cases "w = k")
    case True
    with Cons.prems show ?thesis by (simp add: p)
  next
    case False
    show ?thesis
    proof (cases "w < k")
      case True
      with Cons.prems False show ?thesis by (auto simp: p)
    next
      case ge: False
      with False have "k < w" by simp
      with lt have "\<forall>y \<in> fst ` set (bind_set w v b). k < y"
        by (simp add: keys_bind_set)
      with Cons.IH [OF s] False ge show ?thesis by (simp add: p)
    qed
  qed
qed

lemma distinct_snd_bind_set:
  "distinct (map snd b) \<Longrightarrow> v \<notin> snd ` set b \<Longrightarrow> distinct (map snd (bind_set w v b))"
proof (induction b)
  case Nil
  show ?case by simp
next
  case (Cons p b)
  obtain k x where p: "p = (k, x)" by (cases p)
  from Cons.prems have d: "distinct (map snd b)" and n: "v \<notin> snd ` set b"
    and x: "x \<notin> snd ` set b" and xv: "x \<noteq> v"
    by (auto simp: p)
  from set_bind_set [of w v b] have "snd ` set (bind_set w v b) \<subseteq> insert v (snd ` set b)"
    by force
  with x xv have "x \<notin> snd ` set (bind_set w v b)" by auto
  with Cons.IH [OF d n] d n x xv show ?case by (simp add: p)
qed

lemma sorted_keys_distinct:
  "sorted_wrt (<) (map fst (b :: bindings)) \<Longrightarrow> distinct (map fst b)"
  by (simp add: strict_sorted_iff)

lemma binding_of_None: "binding_of b w = None \<longleftrightarrow> w \<notin> fst ` set b"
  by (simp add: binding_of_def map_of_eq_None_iff)

lemma binding_of_Some: "binding_of b w = Some i \<Longrightarrow> (w, i) \<in> set b"
  by (simp add: binding_of_def map_of_SomeD)

lemma live_after_close:
  "live (B\<lparr>windows := filter (\<lambda>(k, ts). k \<noteq> w) (windows B)\<rparr>) k \<longleftrightarrow> live B k \<and> k \<noteq> w"
  by (auto simp: live_def)

lemma find_workspace_id: "find_workspace idx i = Some ws \<Longrightarrow> ws \<in> set idx \<and> ws_id ws = i"
  by (auto simp: find_workspace_def find_Some_iff)

lemma set_remove_first: "set (remove_first P xs) \<subseteq> set xs"
  by (induction xs) auto

lemma table_inv_iff:
  "table_inv st \<longleftrightarrow>
     sorted_wrt (<) (map fst (windowBindings st)) \<and>
     (\<forall>p \<in> set (windowBindings st). live (host st) (fst p) \<and> snd p \<noteq> []) \<and>
     (\<forall>ws \<in> set (workspaceIndex st). ws_id ws \<noteq> [])"
  by (auto simp: table_inv_def table_wf_def keys_live_def truthy_id_def list_all_iff)

lemma table_wf_iff:
  "table_wf st \<longleftrightarrow>
     sorted_wrt (<) (map fst (windowBindings st)) \<and>
     (\<forall>p \<in> set (windowBindings st). snd p \<noteq> []) \<and>
     (\<forall>ws \<in> set (workspaceIndex st). ws_id ws \<noteq> [])"
  by (auto simp: table_wf_def truthy_id_def list_all_iff)

lemma keys_live_iff:
  "keys_live st \<longleftrightarrow> (\<forall>p \<in> set (windowBindings st). live (host st) (fst p))"
  by (auto simp: keys_live_def list_all_iff)

text \<open>The startup reap: from any well-formed table to one whose keys are live.\<close>

lemma reap_bindings:
  "windowBindings (cleanupStaleBindings st) =
     filter (\<lambda>(w, i). live (host st) w) (windowBindings st)"
  by (simp add: cleanupStaleBindings_def Let_def live_def)

lemma reap_table_inv: "table_wf st \<Longrightarrow> table_inv (cleanupStaleBindings st)"
  by (auto simp: table_wf_iff table_inv_iff reap_bindings cleanupStaleBindings_frame
        sorted_wrt_filter sorted_wrt_map)
     (simp add: cleanupStaleBindings_def Let_def)

lemma reap_distinct:
  "unique_live st \<Longrightarrow> distinct (map snd (windowBindings (cleanupStaleBindings st)))"
  by (simp add: unique_live_def reap_bindings)

lemma reap_distinct_kept:
  "distinct (map snd (windowBindings st)) \<Longrightarrow>
   distinct (map snd (windowBindings (cleanupStaleBindings st)))"
  by (simp add: reap_bindings distinct_map_filter)

lemma keys_live_filter:
  "keys_live st \<Longrightarrow> filter (\<lambda>(w, i). live (host st) w) (windowBindings st) = windowBindings st"
  by (auto simp: keys_live_iff intro!: filter_True)

text \<open>A window closes.\<close>

lemma close_bindings:
  assumes "\<forall>p \<in> set (windowBindings st). snd p \<noteq> []"
  shows "windowBindings (close_window w st) = filter (\<lambda>(k, v). k \<noteq> w) (windowBindings st)"
proof (cases "binding_of (windowBindings st) w")
  case None
  then have "w \<notin> fst ` set (windowBindings st)" by (simp add: binding_of_None)
  then have "\<forall>p \<in> set (windowBindings st). fst p \<noteq> w" by auto
  then have "filter (\<lambda>(k, v). k \<noteq> w) (windowBindings st) = windowBindings st"
    by (auto intro!: filter_True)
  with None show ?thesis
    by (simp add: close_window_def onWindowRemoved_def)
next
  case (Some i)
  with assms have "i \<noteq> []" by (auto dest!: binding_of_Some)
  with Some show ?thesis
    by (simp add: close_window_def onWindowRemoved_def truthy_id_def Let_def bind_delete_def)
qed

lemma close_host:
  "host (close_window w st) =
     (host st)\<lparr>windows := filter (\<lambda>(k, ts). k \<noteq> w) (windows (host st))\<rparr>"
  "workspaceIndex (close_window w st) = workspaceIndex st"
  by (simp_all add: close_window_def onWindowRemoved_def Let_def split: option.splits)

lemma close_table_inv:
  assumes "table_inv st"
  shows "table_inv (close_window w st)"
proof -
  from assms have t: "\<forall>p \<in> set (windowBindings st). snd p \<noteq> []"
    by (simp add: table_inv_iff)
  from assms show ?thesis
    by (auto simp: table_inv_iff close_bindings [OF t] close_host live_after_close
          sorted_wrt_filter sorted_wrt_map)
qed

lemma close_distinct:
  assumes "table_inv st" and "distinct (map snd (windowBindings st))"
  shows "distinct (map snd (windowBindings (close_window w st)))"
proof -
  from assms(1) have t: "\<forall>p \<in> set (windowBindings st). snd p \<noteq> []"
    by (simp add: table_inv_iff)
  from assms(2) show ?thesis
    by (simp add: close_bindings [OF t] distinct_map_filter)
qed

text \<open>A binding is set.\<close>

lemma bind_table_inv:
  assumes "table_inv st" and "i \<noteq> []"
      and "windowBindings st' = bind_set w i (windowBindings st)"
      and "live (host st') w" and "\<forall>k. live (host st) k \<longrightarrow> live (host st') k"
      and "\<forall>ws \<in> set (workspaceIndex st'). ws_id ws \<noteq> []"
  shows "table_inv st'"
proof -
  let ?b = "bind_set w i (windowBindings st)"
  from assms(1) have s: "sorted_wrt (<) (map fst (windowBindings st))"
    and l: "\<forall>p \<in> set (windowBindings st). live (host st) (fst p) \<and> snd p \<noteq> []"
    by (simp_all add: table_inv_iff)
  have 1: "sorted_wrt (<) (map fst ?b)" by (rule sorted_bind_set [OF s])
  have 3: "\<forall>p \<in> set ?b. live (host st') (fst p) \<and> snd p \<noteq> []"
  proof
    fix p assume "p \<in> set ?b"
    with set_bind_set [of w i "windowBindings st"]
    have "p = (w, i) \<or> p \<in> set (windowBindings st)" by auto
    with l assms(2,4,5) show "live (host st') (fst p) \<and> snd p \<noteq> []" by auto
  qed
  from 1 3 assms(3,6) show ?thesis by (simp add: table_inv_iff)
qed

text \<open>A workspace is created.\<close>

lemma createWorkspace_captured:
  assumes "window_arg d = Some w"
      and "capture H (settings st) (tabs_query (host st) w) = Some ds"
  shows "windowBindings (snd (createWorkspace H D (Some d) st)) =
           bind_set w (generateId D) (windowBindings st)"
    and "host (snd (createWorkspace H D (Some d) st)) = host st"
    and "map ws_id (workspaceIndex (snd (createWorkspace H D (Some d) st))) =
           map ws_id (workspaceIndex st) @ [generateId D]"
  using assms by (simp_all add: createWorkspace_def Let_def)

lemma createWorkspace_blank:
  assumes "window_arg d = None"
  shows "windowBindings (snd (createWorkspace H D (Some d) st)) = windowBindings st"
    and "host (snd (createWorkspace H D (Some d) st)) = host st"
    and "map ws_id (workspaceIndex (snd (createWorkspace H D (Some d) st))) =
           map ws_id (workspaceIndex st) @ [generateId D]"
  by (simp_all add: createWorkspace_blank_state [OF assms])

lemma ids_nonempty:
  "(\<forall>ws \<in> set idx. ws_id ws \<noteq> []) \<longleftrightarrow> [] \<notin> set (map ws_id idx)"
  by (induction idx) auto

lemma create_table_inv:
  assumes "table_inv st" and "op_live (Create D d) st"
  shows "table_inv (snd (createWorkspace H D (Some d) st))"
proof -
  let ?st = "snd (createWorkspace H D (Some d) st)"
  from assms(2) have g: "generateId D \<noteq> []" by (simp add: truthy_id_def)
  from assms(1) have "\<forall>ws \<in> set (workspaceIndex st). ws_id ws \<noteq> []"
    by (simp add: table_inv_iff)
  then have r: "[] \<notin> set (map ws_id (workspaceIndex st))"
    by (rule ids_nonempty [THEN iffD1])
  show ?thesis
  proof (cases "window_arg d")
    case None
    from createWorkspace_blank(3) [OF None, of H D st] g r
    have "\<forall>ws \<in> set (workspaceIndex ?st). ws_id ws \<noteq> []"
      unfolding ids_nonempty by simp
    with assms(1) show ?thesis
      by (simp add: table_inv_iff createWorkspace_blank(1,2) [OF None])
  next
    case (Some w)
    with assms(2) have l: "live (host st) w" by simp
    show ?thesis
    proof (cases "capture H (settings st) (tabs_query (host st) w)")
      case None
      with Some assms(1) show ?thesis by (simp add: createWorkspace_throws)
    next
      case ds: (Some ds)
      note c = createWorkspace_captured [OF Some ds, of D]
      from c(3) g r have i: "\<forall>ws \<in> set (workspaceIndex ?st). ws_id ws \<noteq> []"
        unfolding ids_nonempty by simp
      show ?thesis
        by (rule bind_table_inv [OF assms(1) g c(1)]) (simp_all add: c(2) l i)
    qed
  qed
qed

lemma create_distinct:
  assumes "distinct (map snd (windowBindings st))" and "op_fresh (Create D d) st"
  shows "distinct (map snd (windowBindings (snd (createWorkspace H D (Some d) st))))"
proof (cases "window_arg d")
  case None
  with assms(1) show ?thesis by (simp add: createWorkspace_blank(1))
next
  case (Some w)
  show ?thesis
  proof (cases "capture H (settings st) (tabs_query (host st) w)")
    case None
    with Some assms(1) show ?thesis by (simp add: createWorkspace_throws)
  next
    case ds: (Some ds)
    from assms(2) have "generateId D \<notin> snd ` set (windowBindings st)" by simp
    with assms(1) show ?thesis
      by (simp add: createWorkspace_captured(1) [OF Some ds] distinct_snd_bind_set)
  qed
qed

text \<open>A workspace is opened.\<close>

lemma open_new_table_inv:
  assumes "table_inv st" and "i \<noteq> []"
  shows "table_inv (snd (open_new_window H i st))"
proof (rule bind_table_inv [OF assms])
  note h = open_new_window_host [of H i st]
  show "windowBindings (snd (open_new_window H i st)) =
          bind_set (Suc (lastWindowId (host st))) i (windowBindings st)"
    by (rule open_new_window_state)
  show "live (host (snd (open_new_window H i st))) (Suc (lastWindowId (host st)))"
    using h by (simp add: live_def)
  show "\<forall>k. live (host st) k \<longrightarrow> live (host (snd (open_new_window H i st))) k"
    using h by (simp add: live_def)
  from assms(1) show "\<forall>ws \<in> set (workspaceIndex (snd (open_new_window H i st))). ws_id ws \<noteq> []"
    by (simp add: open_new_window_state table_inv_iff)
qed

lemma open_cases:
  "snd (openWorkspace H i st) = st \<or>
   (find_workspace (workspaceIndex st) i \<noteq> None \<and>
    snd (openWorkspace H i st) = snd (open_new_window H i st))"
  by (simp add: openWorkspace_def returned_def split: option.splits)

lemma open_table_inv:
  assumes "table_inv st"
  shows "table_inv (snd (openWorkspace H i st))"
proof -
  from open_cases [of H i st] show ?thesis
  proof
    assume "snd (openWorkspace H i st) = st"
    with assms show ?thesis by simp
  next
    assume a: "find_workspace (workspaceIndex st) i \<noteq> None \<and>
      snd (openWorkspace H i st) = snd (open_new_window H i st)"
    then obtain ws where "find_workspace (workspaceIndex st) i = Some ws" by auto
    with assms have "i \<noteq> []"
      by (auto simp: table_inv_iff dest!: find_workspace_id)
    with a open_new_table_inv [OF assms] show ?thesis by simp
  qed
qed

lemma open_distinct:
  assumes "table_inv st" and "distinct (map snd (windowBindings st))"
      and "settings st = Some p" and "focusExistingWindow p"
  shows "distinct (map snd (windowBindings (snd (openWorkspace H i st))))"
proof (cases "find_workspace (workspaceIndex st) i")
  case None
  with assms(2) show ?thesis by (simp add: openWorkspace_def)
next
  case (Some ws)
  show ?thesis
  proof (cases "find_window (windowBindings st) i")
    case None
    then have "i \<notin> snd ` set (windowBindings st)"
      by (force simp: find_window_None)
    with assms(2) Some None show ?thesis
      by (simp add: openWorkspace_def returned_def open_new_window_state distinct_snd_bind_set)
  next
    case e: (Some e)
    with assms(1) have "live (host st) e"
      by (auto simp: table_inv_iff dest!: find_window_Some)
    with Some e assms(2,3,4) show ?thesis
      by (simp add: openWorkspace_def)
  qed
qed

text \<open>A workspace is deleted.\<close>

lemma delete_table_inv:
  assumes "table_inv st"
  shows "table_inv (snd (deleteWorkspace i st))"
proof (cases "find_workspace (workspaceIndex st) i")
  case None
  with assms show ?thesis by (simp add: deleteWorkspace_def)
next
  case (Some ws)
  from assms set_remove_first [of "\<lambda>ws. ws_id ws = i" "workspaceIndex st"]
  have "\<forall>ws \<in> set (remove_first (\<lambda>ws. ws_id ws = i) (workspaceIndex st)). ws_id ws \<noteq> []"
    by (auto simp: table_inv_iff)
  with assms Some show ?thesis
    by (auto simp: deleteWorkspace_def Let_def table_inv_iff sorted_wrt_filter sorted_wrt_map)
qed

lemma delete_distinct:
  assumes "distinct (map snd (windowBindings st))"
  shows "distinct (map snd (windowBindings (snd (deleteWorkspace i st))))"
  using assms
  by (simp add: deleteWorkspace_def Let_def distinct_map_filter split: option.splits)

text \<open>Sequences.\<close>

lemma run_op_table_inv:
  assumes "table_inv st" and "op_live x st"
  shows "table_inv (run_op H x st)"
proof (cases x)
  case (Create D d)
  with assms show ?thesis by (simp add: create_table_inv)
next
  case (Open i)
  with assms show ?thesis by (simp add: open_table_inv)
next
  case (Delete i)
  with assms show ?thesis by (simp add: delete_table_inv)
next
  case (Close w)
  with assms show ?thesis by (simp add: close_table_inv)
next
  case Reap
  from assms(1) have "table_wf st" by (simp add: table_inv_def)
  with Reap show ?thesis by (simp add: reap_table_inv)
qed

lemma run_op_distinct:
  assumes "table_inv st" and "distinct (map snd (windowBindings st))"
      and "settings st = Some p" and "focusExistingWindow p" and "op_fresh x st"
  shows "distinct (map snd (windowBindings (run_op H x st)))"
proof (cases x)
  case (Create D d)
  with assms show ?thesis by (simp add: create_distinct)
next
  case (Open i)
  with assms show ?thesis by (simp add: open_distinct)
next
  case (Delete i)
  with assms show ?thesis by (simp add: delete_distinct)
next
  case (Close w)
  with assms show ?thesis by (simp add: close_distinct)
next
  case Reap
  with assms show ?thesis by (simp add: reap_distinct_kept)
qed

lemma run_ops_table_inv:
  assumes "table_inv st" and "ops_live H ops st"
  shows "table_inv (run_ops H ops st)"
  using assms unfolding run_ops_def
proof (induction ops arbitrary: st)
  case Nil
  then show ?case by simp
next
  case (Cons x xs)
  from Cons.prems have "table_inv (run_op H x st)" by (simp add: run_op_table_inv)
  moreover from Cons.prems have "ops_live H xs (run_op H x st)" by simp
  ultimately show ?case using Cons.IH by simp
qed

lemma run_ops_unique_inv:
  assumes "unique_inv st" and "settings st = Some p" and "focusExistingWindow p"
      and "ops_live H ops st" and "ops_fresh H ops st"
  shows "unique_inv (run_ops H ops st)"
  using assms unfolding run_ops_def
proof (induction ops arbitrary: st)
  case Nil
  then show ?case by simp
next
  case (Cons x xs)
  from Cons.prems have t: "table_inv st" and d: "distinct (map snd (windowBindings st))"
    by (simp_all add: unique_inv_def)
  from t Cons.prems have "table_inv (run_op H x st)" by (simp add: run_op_table_inv)
  moreover from t d Cons.prems have "distinct (map snd (windowBindings (run_op H x st)))"
    by (simp add: run_op_distinct)
  ultimately have "unique_inv (run_op H x st)" by (simp add: unique_inv_def)
  moreover from Cons.prems have "settings (run_op H x st) = Some p"
    by (simp add: run_op_frame)
  moreover from Cons.prems have "ops_live H xs (run_op H x st)" "ops_fresh H xs (run_op H x st)"
    by simp_all
  ultimately show ?case using Cons.IH Cons.prems(3) by simp
qed

lemma unique_inv_table_ok: "unique_inv st \<Longrightarrow> binding_table_ok st"
  by (simp add: unique_inv_def table_inv_def table_wf_def binding_table_ok_def unique_live_def
        sorted_keys_distinct distinct_map_filter)

lemma starts_with_reap_Cons: "starts_with_reap ops \<Longrightarrow> \<exists>xs. ops = Reap # xs"
  by (induction ops rule: starts_with_reap.induct) simp_all

lemma start_table_inv:
  assumes "table_wf st" and "keys_live st \<or> starts_with_reap ops" and "ops_live H ops st"
  shows "table_inv (run_ops H ops st)"
  using assms(2)
proof
  assume "keys_live st"
  with assms(1) have "table_inv st" by (simp add: table_inv_def)
  then show ?thesis using assms(3) by (rule run_ops_table_inv)
next
  assume "starts_with_reap ops"
  then obtain xs where x: "ops = Reap # xs" by (blast dest: starts_with_reap_Cons)
  with assms(3) have "ops_live H xs (cleanupStaleBindings st)" by simp
  with reap_table_inv [OF assms(1)] have "table_inv (run_ops H xs (cleanupStaleBindings st))"
    by (rule run_ops_table_inv)
  with x show ?thesis by (simp add: run_ops_def)
qed

lemma start_unique_inv:
  assumes "table_wf st" and "keys_live st \<or> starts_with_reap ops" and "ops_live H ops st"
      and "settings st = Some p" and "focusExistingWindow p" and "unique_live st"
      and "ops_fresh H ops st"
  shows "unique_inv (run_ops H ops st)"
  using assms(2)
proof
  assume k: "keys_live st"
  with assms(6) have "distinct (map snd (windowBindings st))"
    by (simp add: unique_live_def keys_live_filter)
  with assms(1) k have "unique_inv st" by (simp add: unique_inv_def table_inv_def)
  then show ?thesis using assms(4,5,3,7) by (rule run_ops_unique_inv)
next
  assume "starts_with_reap ops"
  then obtain xs where x: "ops = Reap # xs" by (blast dest: starts_with_reap_Cons)
  let ?st = "cleanupStaleBindings st"
  from assms(1,6) have u: "unique_inv ?st"
    by (simp add: unique_inv_def reap_table_inv reap_distinct)
  from assms(4) have s: "settings ?st = Some p" by (simp add: cleanupStaleBindings_frame)
  from x assms(3,7) have "ops_live H xs ?st" "ops_fresh H xs ?st" by simp_all
  with u s assms(5) have "unique_inv (run_ops H xs ?st)"
    by (blast intro: run_ops_unique_inv)
  with x show ?thesis by (simp add: run_ops_def)
qed

lemma restart_frame:
  "windowBindings (cleanupStaleBindings restart_state) = [(3, ''W1'')]"
  "host (cleanupStaleBindings restart_state) = sample_browser"
  "settings restart_state = Some sample_prefs"
  by (simp_all add: reap_bindings cleanupStaleBindings_frame restart_state_def)
     (simp_all add: sample_state_def sample_browser_def live_def)

lemma unfocused_frame:
  "windowBindings unfocused_state = [(3, ''W1'')]"
  "find_workspace (workspaceIndex unfocused_state) ''W1'' =
     Some (sample_workspace ''W1'' ''Work'' 100)"
  "settings unfocused_state = Some (sample_prefs\<lparr>focusExistingWindow := False\<rparr>)"
  "map fst (windows (host unfocused_state)) = [3, 4]"
  "lastWindowId (host unfocused_state) = 4"
  by (simp_all add: unfocused_state_def sample_find_W1)
     (simp_all add: sample_state_def sample_browser_def)

lemma unfocused_open:
  "run_ops sample_helpers [Open ''W1''] unfocused_state =
     snd (open_new_window sample_helpers ''W1'' unfocused_state)"
  by (simp add: run_ops_def openWorkspace_def returned_def unfocused_frame find_window_def)

text \<open>
  C2, as amended. Take any sequence of createWorkspace, openWorkspace, deleteWorkspace,
  window-close and startup-reap operations on a well-formed table (ascending keys,
  non-empty workspace ids in the table and the registry) that begins with the startup
  reap, as \<open>init\<close> does, or starts from a table whose keys are all live; let every
  generated id be non-empty and every creation from a window name a live window. Then
  after the sequence the binding table maps each window to at most one workspace id and
  has no key for a window that is not live. If moreover the setting
  \<open>focusExistingWindow\<close> is on, no two live windows are bound to the same id at the
  start and every generated id is not yet bound, then after the sequence no two live
  windows are bound to the same workspace id either.
\<close>

theorem binding_invariant_preserved:
  assumes "table_wf st" and "keys_live st \<or> starts_with_reap ops" and "ops_live H ops st"
  shows "distinct (map fst (windowBindings (run_ops H ops st))) \<and>
         keys_live (run_ops H ops st) \<and>
         (settings st = Some p \<and> focusExistingWindow p \<and> unique_live st \<and> ops_fresh H ops st
            \<longrightarrow> binding_table_ok (run_ops H ops st))"
proof (intro conjI impI)
  from start_table_inv [OF assms] have t: "table_inv (run_ops H ops st)" .
  then show "distinct (map fst (windowBindings (run_ops H ops st)))"
    by (simp add: table_inv_def table_wf_def sorted_keys_distinct)
  from t show "keys_live (run_ops H ops st)" by (simp add: table_inv_def)
next
  assume "settings st = Some p \<and> focusExistingWindow p \<and> unique_live st \<and> ops_fresh H ops st"
  then have "unique_inv (run_ops H ops st)"
    using start_unique_inv [OF assms, of p] by blast
  then show "binding_table_ok (run_ops H ops st)" by (rule unique_inv_table_ok)
qed

theorem binding_invariant_preserved_witness:
  "table_wf restart_state \<and> \<not> keys_live restart_state \<and>
   starts_with_reap [Reap, Create sample_draws sample_create, Open ''W1'', Close 3, Open ''W2''] \<and>
   ops_live sample_helpers
     [Reap, Create sample_draws sample_create, Open ''W1'', Close 3, Open ''W2'']
     restart_state \<and>
   settings restart_state = Some sample_prefs \<and> focusExistingWindow sample_prefs \<and>
   unique_live restart_state \<and>
   ops_fresh sample_helpers
     [Reap, Create sample_draws sample_create, Open ''W1'', Close 3, Open ''W2'']
     restart_state \<and>
   keys_live (run_ops sample_helpers
     [Reap, Create sample_draws sample_create, Open ''W1'', Close 3, Open ''W2'']
     restart_state) \<and>
   binding_table_ok (run_ops sample_helpers
     [Reap, Create sample_draws sample_create, Open ''W1'', Close 3, Open ''W2'']
     restart_state)"
proof -
  let ?ops = "[Reap, Create sample_draws sample_create, Open ''W1'', Close 3, Open ''W2'']"
  have b: "windowBindings restart_state = [(3, ''W1''), (9, ''W7'')]"
    "host restart_state = sample_browser"
    "workspaceIndex restart_state = [sample_workspace ''W1'' ''Work'' 100]"
    by (simp_all add: restart_state_def) (simp_all add: sample_state_def)
  have w: "table_wf restart_state"
    by (simp add: table_wf_def b truthy_id_def sample_workspace_def)
  have n: "\<not> keys_live restart_state"
    by (simp add: keys_live_def b live_def sample_browser_def)
  have r: "starts_with_reap ?ops" by simp
  have l: "ops_live sample_helpers ?ops restart_state"
    by (simp add: sample_window_arg restart_frame)
       (simp add: truthy_id_def sample_draws_def live_def sample_browser_def)
  have s: "settings restart_state = Some sample_prefs" by (rule restart_frame)
  have g: "focusExistingWindow sample_prefs" by (simp add: sample_prefs_def)
  have u: "unique_live restart_state"
    by (simp add: unique_live_def b live_def sample_browser_def)
  have f: "ops_fresh sample_helpers ?ops restart_state"
    by (simp add: restart_frame) (simp add: sample_draws_def)
  note t = binding_invariant_preserved [OF w disjI2 [OF r] l, of sample_prefs]
  from t have k: "keys_live (run_ops sample_helpers ?ops restart_state)" by simp
  from t s g u f have o: "binding_table_ok (run_ops sample_helpers ?ops restart_state)"
    by simp
  from w n r l s g u f k o show ?thesis by (intro conjI)
qed

text \<open>
  C2 as stated fails in two ways. With \<open>focusExistingWindow\<close> off, opening \<open>W1\<close> while it
  is open in window 3 creates window 5 and binds it to \<open>W1\<close> as well, so two live windows
  are bound to the same workspace id. And creating a workspace from window 9, which is not
  live, puts the key 9 into the table.
\<close>

theorem second_window_counterexample:
  "binding_table_ok unfocused_state \<and>
   windowBindings (run_ops sample_helpers [Open ''W1''] unfocused_state) =
     [(3, ''W1''), (5, ''W1'')] \<and>
   live (host (run_ops sample_helpers [Open ''W1''] unfocused_state)) 3 \<and>
   live (host (run_ops sample_helpers [Open ''W1''] unfocused_state)) 5 \<and>
   \<not> binding_table_ok (run_ops sample_helpers [Open ''W1''] unfocused_state) \<and>
   binding_table_ok sample_state \<and>
   stale_state = run_ops sample_helpers [Create sample_draws stale_create] sample_state \<and>
   binding_of (windowBindings stale_state) 9 = Some ''W2'' \<and>
   \<not> live (host stale_state) 9 \<and>
   \<not> binding_table_ok stale_state"
proof -
  let ?st = "run_ops sample_helpers [Open ''W1''] unfocused_state"
  have 0: "binding_table_ok unfocused_state"
    by (simp add: binding_table_ok_def unique_live_def keys_live_def live_def unfocused_frame)
  have b: "windowBindings ?st = [(3, ''W1''), (5, ''W1'')]"
    by (simp add: unfocused_open open_new_window_state unfocused_frame)
  have w: "map fst (windows (host ?st)) = [3, 4, 5]"
    using open_new_window_host [of sample_helpers "''W1''" unfocused_state]
    by (simp add: unfocused_open unfocused_frame)
  then have l: "live (host ?st) 3" "live (host ?st) 5"
    by (simp_all add: live_def)
  have n: "\<not> binding_table_ok ?st"
    by (simp add: binding_table_ok_def unique_live_def b l)
  have 1: "binding_table_ok sample_state"
    by (simp add: binding_table_ok_def unique_live_def keys_live_def live_def sample_state_def
          sample_browser_def)
  have 2: "stale_state = run_ops sample_helpers [Create sample_draws stale_create] sample_state"
    by (simp add: stale_state_def)
  have 3: "binding_of (windowBindings stale_state) 9 = Some ''W2''"
    by (simp add: stale_frame binding_of_def)
  have 4: "\<not> live (host stale_state) 9"
    by (simp add: stale_frame live_def sample_browser_def)
  have 5: "\<not> binding_table_ok stale_state"
    by (simp add: binding_table_ok_def keys_live_def stale_frame live_def sample_browser_def)
  from 0 b l n 1 2 3 4 5 show ?thesis by (intro conjI)
qed

end
